theory Spec2Isabelle
  imports Complex_Main "HOL-Library.Word" "HOL-Library.Log_Nat"
begin

section \<open>JavaScript strings and regular expressions\<close>

text \<open>
  A JavaScript string is a finite sequence of 16-bit UTF-16 code units; \<open>length\<close>
  counts code units, as \<^verbatim>\<open>String.prototype.length\<close> does. String literals of the
  source are written \<open>js ''...''\<close>.
\<close>

type_synonym code_unit = "16 word"
type_synonym jsstring = "code_unit list"

abbreviation cu :: "char \<Rightarrow> code_unit" where
  "cu c \<equiv> of_char c"

definition js :: "string \<Rightarrow> jsstring" where
  "js s = map cu s"

text \<open>\<^verbatim>\<open>s.endsWith(t)\<close>\<close>

definition endsWith :: "jsstring \<Rightarrow> jsstring \<Rightarrow> bool" where
  "endsWith s t = (length t \<le> length s \<and> drop (length s - length t) s = t)"

subsection \<open>Character classes\<close>

text \<open>
  A character class is a list of inclusive code-unit ranges; a single character
  \<open>c\<close> is the range \<open>(c, c)\<close>.
\<close>

type_synonym char_class = "(code_unit \<times> code_unit) list"

fun in_class :: "char_class \<Rightarrow> code_unit \<Rightarrow> bool" where
  "in_class [] c = False"
| "in_class ((lo, hi) # rs) c = ((lo \<le> c \<and> c \<le> hi) \<or> in_class rs c)"

definition from_to :: "char \<Rightarrow> char \<Rightarrow> code_unit \<times> code_unit" where
  "from_to a b = (cu a, cu b)"

definition just :: "char \<Rightarrow> code_unit \<times> code_unit" where
  "just a = (cu a, cu a)"

definition ascii_upper :: "code_unit \<Rightarrow> code_unit" where
  "ascii_upper c = (if cu CHR ''a'' \<le> c \<and> c \<le> cu CHR ''z'' then c - 32 else c)"

definition ascii_lower :: "code_unit \<Rightarrow> code_unit" where
  "ascii_lower c = (if cu CHR ''A'' \<le> c \<and> c \<le> cu CHR ''Z'' then c + 32 else c)"

text \<open>
  Class membership under the \<^verbatim>\<open>i\<close> flag (without \<^verbatim>\<open>u\<close>): a code unit \<open>c\<close> matches
  a class \<open>A\<close> when some member of \<open>A\<close> has the same canonical form. The canonical
  form of a code unit below 128 is its ASCII upper case, and a code unit from 128 on
  never canonicalises to one below 128. Every class of this program has members
  below 128 only, so \<open>c\<close> matches exactly when \<open>c\<close>, its ASCII upper case or its
  ASCII lower case is a member.
\<close>

definition in_class_i :: "char_class \<Rightarrow> code_unit \<Rightarrow> bool" where
  "in_class_i A c = (in_class A c \<or> in_class A (ascii_upper c) \<or> in_class A (ascii_lower c))"

text \<open>The atom \<^verbatim>\<open>.\<close> matches every code unit but the four line terminators.\<close>

definition dot :: "code_unit \<Rightarrow> bool" where
  "dot c = (c \<noteq> 0x000A \<and> c \<noteq> 0x000D \<and> c \<noteq> 0x2028 \<and> c \<noteq> 0x2029)"

subsection \<open>Regular expressions, matched by derivatives\<close>

datatype regex =
    Never
  | Empty
  | Class "code_unit \<Rightarrow> bool"
  | Then regex regex
  | Or regex regex
  | Many regex

text \<open>\<^verbatim>\<open>r+\<close> and \<^verbatim>\<open>r{n,}\<close>\<close>

definition at_least_one :: "regex \<Rightarrow> regex" where
  "at_least_one r = Then r (Many r)"

fun at_least :: "nat \<Rightarrow> regex \<Rightarrow> regex" where
  "at_least 0 r = Many r"
| "at_least (Suc n) r = Then r (at_least n r)"

fun nullable :: "regex \<Rightarrow> bool" where
  "nullable Never = False"
| "nullable Empty = True"
| "nullable (Class p) = False"
| "nullable (Then r s) = (nullable r \<and> nullable s)"
| "nullable (Or r s) = (nullable r \<or> nullable s)"
| "nullable (Many r) = True"

fun deriv :: "code_unit \<Rightarrow> regex \<Rightarrow> regex" where
  "deriv c Never = Never"
| "deriv c Empty = Never"
| "deriv c (Class p) = (if p c then Empty else Never)"
| "deriv c (Then r s) =
     (if nullable r then Or (Then (deriv c r) s) (deriv c s) else Then (deriv c r) s)"
| "deriv c (Or r s) = Or (deriv c r) (deriv c s)"
| "deriv c (Many r) = Then (deriv c r) (Many r)"

text \<open>
  \<open>full_match r s\<close>: the whole of \<open>s\<close> matches \<open>r\<close>, which is what
  \<^verbatim>\<open>/^r$/.test(s)\<close> decides (no \<^verbatim>\<open>m\<close> flag: the anchors are the two ends of the
  input). \<open>lookahead r s\<close>: some prefix of \<open>s\<close> matches \<open>r\<close>, which is what the
  assertion \<^verbatim>\<open>(?=r)\<close> decides at the start of \<open>s\<close>.
\<close>

fun full_match :: "regex \<Rightarrow> jsstring \<Rightarrow> bool" where
  "full_match r [] = nullable r"
| "full_match r (c # cs) = full_match (deriv c r) cs"

fun lookahead :: "regex \<Rightarrow> jsstring \<Rightarrow> bool" where
  "lookahead r [] = nullable r"
| "lookahead r (c # cs) = (nullable r \<or> lookahead (deriv c r) cs)"

text \<open>
  The meaning of a regular expression, as the set of strings it matches; the matcher
  above decides it.
\<close>

inductive matches :: "regex \<Rightarrow> jsstring \<Rightarrow> bool" where
  empty: "matches Empty []"
| one: "p c \<Longrightarrow> matches (Class p) [c]"
| both: "matches r u \<Longrightarrow> matches s v \<Longrightarrow> matches (Then r s) (u @ v)"
| left: "matches r u \<Longrightarrow> matches (Or r s) u"
| right: "matches s u \<Longrightarrow> matches (Or r s) u"
| none: "matches (Many r) []"
| more: "matches r u \<Longrightarrow> matches (Many r) v \<Longrightarrow> matches (Many r) (u @ v)"

section \<open>Form validators (\<^verbatim>\<open>lib/validation.ts\<close>)\<close>

record ValidationResult =
  valid :: bool
  message :: "jsstring option"

definition invalid :: "string \<Rightarrow> ValidationResult" where
  "invalid m = \<lparr>valid = False, message = Some (js m)\<rparr>"

definition ok :: ValidationResult where
  "ok = \<lparr>valid = True, message = None\<rparr>"

text \<open>\<^verbatim>\<open>/^[a-zA-Z0-9._%+-]+@[a-zA-Z0-9.-]+\.[a-z]{2,}$/i\<close>\<close>

definition email_regex :: regex where
  "email_regex =
     Then (at_least_one (Class (in_class_i
             [from_to CHR ''a'' CHR ''z'', from_to CHR ''A'' CHR ''Z'', from_to CHR ''0'' CHR ''9'',
              just CHR ''.'', just CHR ''_'', just CHR ''%'', just CHR ''+'',
              just CHR ''-''])))
    (Then (Class (in_class_i [just CHR ''@'']))
    (Then (at_least_one (Class (in_class_i
             [from_to CHR ''a'' CHR ''z'', from_to CHR ''A'' CHR ''Z'', from_to CHR ''0'' CHR ''9'',
              just CHR ''.'', just CHR ''-''])))
    (Then (Class (in_class_i [just CHR ''.'']))
          (at_least 2 (Class (in_class_i [from_to CHR ''a'' CHR ''z'']))))))"

definition validateEmail :: "jsstring \<Rightarrow> ValidationResult" where
  "validateEmail email =
     (if email = [] then invalid ''Email is required''
      else if \<not> full_match email_regex email then invalid ''Invalid email format''
      else if \<not> endsWith email (js ''.com'') \<and> \<not> endsWith email (js ''.in'')
        then invalid ''Email must end with .com or .in''
      else ok)"

text \<open>
  \<^verbatim>\<open>/^(?=.*[a-z])(?=.*[A-Z])(?=.*\d)(?=.*[@$!%*?&])[A-Za-z\d@$!%*?&]{8,}$/\<close>:
  four assertions at the start of the input, then the body.
\<close>

definition password_special :: char_class where
  "password_special =
     [just CHR ''@'', just CHR ''$'', just CHR ''!'', just CHR ''%'',
      just CHR ''*'', just CHR ''?'', just CHR ''&'']"

definition password_regex_test :: "jsstring \<Rightarrow> bool" where
  "password_regex_test s =
     (lookahead (Then (Many (Class dot)) (Class (in_class [from_to CHR ''a'' CHR ''z'']))) s
      \<and> lookahead (Then (Many (Class dot)) (Class (in_class [from_to CHR ''A'' CHR ''Z'']))) s
      \<and> lookahead (Then (Many (Class dot)) (Class (in_class [from_to CHR ''0'' CHR ''9'']))) s
      \<and> lookahead (Then (Many (Class dot)) (Class (in_class password_special))) s
      \<and> full_match
          (at_least 8 (Class (in_class
             ([from_to CHR ''A'' CHR ''Z'', from_to CHR ''a'' CHR ''z'', from_to CHR ''0'' CHR ''9'']
              @ password_special)))) s)"

definition validatePassword :: "jsstring \<Rightarrow> ValidationResult" where
  "validatePassword password =
     (if password = [] then invalid ''Password is required''
      else if length password < 8 then invalid ''Password must be at least 8 characters''
      else if \<not> password_regex_test password
        then invalid ''Password must contain: 1 uppercase, 1 lowercase, 1 number, 1 special character''
      else ok)"

text \<open>\<^verbatim>\<open>/^[a-zA-Z\s]+$/\<close>; \<^verbatim>\<open>\s\<close> is white space and the line terminators.\<close>

definition white_space :: char_class where
  "white_space =
     [(0x0009, 0x000D), (0x0020, 0x0020), (0x00A0, 0x00A0), (0x1680, 0x1680),
      (0x2000, 0x200A), (0x2028, 0x2029), (0x202F, 0x202F), (0x205F, 0x205F),
      (0x3000, 0x3000), (0xFEFF, 0xFEFF)]"

definition validateName :: "jsstring \<Rightarrow> ValidationResult" where
  "validateName name =
     (if name = [] then invalid ''Name is required''
      else if length name < 3 then invalid ''Name must be at least 3 characters''
      else if \<not> full_match
                 (at_least_one (Class (in_class
                    ([from_to CHR ''a'' CHR ''z'', from_to CHR ''A'' CHR ''Z''] @ white_space)))) name
        then invalid ''Name must contain only alphabets and spaces''
      else ok)"

definition validateConfirmPassword :: "jsstring \<Rightarrow> jsstring \<Rightarrow> ValidationResult" where
  "validateConfirmPassword password confirmPassword =
     (if confirmPassword = [] then invalid ''Please confirm your password''
      else if password \<noteq> confirmPassword then invalid ''Passwords do not match''
      else ok)"

section \<open>Gamification store (\<^verbatim>\<open>store/gamification.ts\<close>)\<close>

text \<open>
  \<^verbatim>\<open>Array.from(new Set(xs))\<close>: the elements of \<open>xs\<close> are added to an initially
  empty set one after the other, an element already present is skipped, and the
  set is read back in insertion order.
\<close>

definition set_add :: "'a list \<Rightarrow> 'a \<Rightarrow> 'a list" where
  "set_add acc x = (if x \<in> set acc then acc else acc @ [x])"

definition array_from_set :: "'a list \<Rightarrow> 'a list" where
  "array_from_set xs = fold (\<lambda>x acc. set_add acc x) xs []"

text \<open>
  The data fields of the store. \<open>xp\<close> is an unbounded integer: the sums of the code,
  which adds doubles, agree with it for whole amounts of magnitude up to \<open>2 ^ 53\<close>.
  Each action that stamps
  \<open>lastUpdatedAt\<close> takes the result of \<^verbatim>\<open>new Date().toISOString()\<close> at the time
  of the call as its first argument.
\<close>

record GamificationState =
  xp :: int
  badges :: "jsstring list"
  lastUpdatedAt :: "jsstring option"

definition useGamificationStore :: GamificationState where
  "useGamificationStore = \<lparr>xp = 0, badges = [], lastUpdatedAt = None\<rparr>"

definition addXp :: "jsstring \<Rightarrow> int \<Rightarrow> GamificationState \<Rightarrow> GamificationState" where
  "addXp now amount state = state\<lparr>xp := xp state + amount, lastUpdatedAt := Some now\<rparr>"

definition mergeBadges :: "jsstring \<Rightarrow> jsstring list \<Rightarrow> GamificationState \<Rightarrow> GamificationState" where
  "mergeBadges now incoming state =
     state\<lparr>badges := array_from_set (badges state @ incoming), lastUpdatedAt := Some now\<rparr>"

definition reset :: "GamificationState \<Rightarrow> GamificationState" where
  "reset state = state\<lparr>xp := 0, badges := [], lastUpdatedAt := None\<rparr>"

datatype store_action = AddXp jsstring int | MergeBadges jsstring "jsstring list" | Reset

fun dispatch :: "GamificationState \<Rightarrow> store_action \<Rightarrow> GamificationState" where
  "dispatch state (AddXp now amount) = addXp now amount state"
| "dispatch state (MergeBadges now incoming) = mergeBadges now incoming state"
| "dispatch state Reset = reset state"

section \<open>API wrapper with mock fallback (\<^verbatim>\<open>EnhancedDomainApi\<close>)\<close>

text \<open>
  The wrapped backend client and the mock data module are other modules; the outcome
  of the backend call (\<open>Inl\<close> a thrown error, \<open>Inr\<close> the value it resolves to) is an
  argument of the model, and each imported mock constant is a constructor.
\<close>

datatype mock_data =
    mockUserProfile | mockRecommendations_personalized | mockTrendingSkills | mockVideos
  | mockCourses | mockCertifications | mockBeginnerChecklist | mockUserStreak
  | mockQuizQuestions | mockCodingChallenge | mockPlaylist | mockRecentActivity

datatype 'a api_value =
    Backend 'a
  | Mock mock_data
  | Ack bool string
  | CodeFeedback bool int string "(string \<times> bool) list"
  | RoadmapFile bool string string

datatype api_method =
    getUserProfile | getPersonalizedRecommendations | getTrendingSkills | getVideos
  | getCourses | getCertificationRoadmap | getBeginnerChecklist | getUserStreak
  | getQuizQuestions | getCodingChallenge | getUserPlaylist | getRecentActivity
  | trackProgress | addToPlaylist | removeFromPlaylist | updatePlaylistProgress
  | submitCode | exportRoadmap

record EnhancedDomainApi =
  useMockData :: bool

definition enhancedDomainApi :: EnhancedDomainApi where
  "enhancedDomainApi = \<lparr>useMockData = False\<rparr>"

definition enableMockData :: "bool \<Rightarrow> EnhancedDomainApi \<Rightarrow> EnhancedDomainApi" where
  "enableMockData v api = api\<lparr>useMockData := v\<rparr>"

text \<open>What the \<^verbatim>\<open>catch\<close> block of each method returns, and what it warns.\<close>

fun fallback :: "api_method \<Rightarrow> 'a api_value" where
  "fallback getUserProfile = Mock mockUserProfile"
| "fallback getPersonalizedRecommendations = Mock mockRecommendations_personalized"
| "fallback getTrendingSkills = Mock mockTrendingSkills"
| "fallback getVideos = Mock mockVideos"
| "fallback getCourses = Mock mockCourses"
| "fallback getCertificationRoadmap = Mock mockCertifications"
| "fallback getBeginnerChecklist = Mock mockBeginnerChecklist"
| "fallback getUserStreak = Mock mockUserStreak"
| "fallback getQuizQuestions = Mock mockQuizQuestions"
| "fallback getCodingChallenge = Mock mockCodingChallenge"
| "fallback getUserPlaylist = Mock mockPlaylist"
| "fallback getRecentActivity = Mock mockRecentActivity"
| "fallback trackProgress = Ack True ''Progress tracked locally''"
| "fallback addToPlaylist = Ack True ''Added to local playlist''"
| "fallback removeFromPlaylist = Ack True ''Removed from local playlist''"
| "fallback updatePlaylistProgress = Ack True ''Updated local progress''"
| "fallback submitCode =
     CodeFeedback True 85 ''Good solution! Consider optimizing for better performance.''
       [(''Test 1'', True), (''Test 2'', True)]"
| "fallback exportRoadmap =
     RoadmapFile True ''data:text/plain;base64,SGVsbG8gV29ybGQh'' ''roadmap.pdf''"

fun warning :: "api_method \<Rightarrow> string" where
  "warning getUserProfile = ''Using mock user profile data''"
| "warning getPersonalizedRecommendations = ''Using mock personalized recommendations''"
| "warning getTrendingSkills = ''Using mock trending skills''"
| "warning getVideos = ''Using mock videos''"
| "warning getCourses = ''Using mock courses''"
| "warning getCertificationRoadmap = ''Using mock certifications''"
| "warning getBeginnerChecklist = ''Using mock beginner checklist''"
| "warning getUserStreak = ''Using mock user streak''"
| "warning getQuizQuestions = ''Using mock quiz questions''"
| "warning getCodingChallenge = ''Using mock coding challenge''"
| "warning getUserPlaylist = ''Using mock playlist''"
| "warning getRecentActivity = ''Using mock recent activity''"
| "warning trackProgress = ''Progress tracking failed, continuing without error''"
| "warning addToPlaylist = ''Add to playlist failed, continuing without error''"
| "warning removeFromPlaylist = ''Remove from playlist failed, continuing without error''"
| "warning updatePlaylistProgress = ''Update playlist progress failed, continuing without error''"
| "warning submitCode = ''Code submission failed, providing mock feedback''"
| "warning exportRoadmap = ''Export roadmap failed, providing mock data''"

text \<open>
  One wrapped method: the result the caller's promise settles to (\<open>Inl\<close> rejected
  with the error, \<open>Inr\<close> resolved) and the lines written with \<^verbatim>\<open>console.warn\<close>.
\<close>

definition call ::
  "EnhancedDomainApi \<Rightarrow> api_method \<Rightarrow> 'e + 'a \<Rightarrow> ('e + 'a api_value) \<times> string list" where
  "call api m backend =
     (case backend of
        Inr v \<Rightarrow> (Inr (Backend v), [])
      | Inl error \<Rightarrow>
          if \<not> useMockData api then (Inl error, [])
          else (Inr (fallback m), [warning m]))"

section \<open>Session store and HTTP interceptor (\<^verbatim>\<open>store/auth.ts\<close>, \<^verbatim>\<open>lib/api.ts\<close>)\<close>

record User =
  user_id :: int
  user_name :: jsstring
  user_email :: jsstring
  user_domain :: "jsstring option"
  user_role :: "jsstring option"
  user_gpa :: "rat option"
  user_experience_years :: "rat option"
  user_demographic_group :: "jsstring option"

record AuthState =
  token :: "jsstring option"
  user :: "User option"

text \<open>
  The browser globals the store touches. \<open>window = None\<close> is a runtime where
  \<^verbatim>\<open>typeof window\<close> is \<^verbatim>\<open>'undefined'\<close>.
\<close>

record Window =
  localStorage :: "jsstring \<rightharpoonup> jsstring"
  location_href :: jsstring

record Runtime =
  authStore :: AuthState
  window :: "Window option"

definition removeItem :: "jsstring \<Rightarrow> Window \<Rightarrow> Window" where
  "removeItem k w = w\<lparr>localStorage := (localStorage w)(k := None)\<rparr>"

definition setItem :: "jsstring \<Rightarrow> jsstring \<Rightarrow> Window \<Rightarrow> Window" where
  "setItem k v w = w\<lparr>localStorage := (localStorage w)(k \<mapsto> v)\<rparr>"

definition setToken :: "jsstring option \<Rightarrow> Runtime \<Rightarrow> Runtime" where
  "setToken t rt =
     (let rt1 = (case window rt of
                   None \<Rightarrow> rt
                 | Some w \<Rightarrow>
                     (case t of
                        Some s \<Rightarrow>
                          if s \<noteq> [] then rt\<lparr>window := Some (setItem (js ''gg_token'') s w)\<rparr>
                          else rt\<lparr>window := Some (removeItem (js ''gg_token'') w)\<rparr>
                      | None \<Rightarrow> rt\<lparr>window := Some (removeItem (js ''gg_token'') w)\<rparr>))
      in rt1\<lparr>authStore := (authStore rt1)\<lparr>token := t\<rparr>\<rparr>)"

text \<open>\<open>stringify\<close> is \<^verbatim>\<open>JSON.stringify\<close> on users.\<close>

definition setUser :: "(User \<Rightarrow> jsstring) \<Rightarrow> User option \<Rightarrow> Runtime \<Rightarrow> Runtime" where
  "setUser stringify u rt =
     (let rt1 = (case window rt of
                   None \<Rightarrow> rt
                 | Some w \<Rightarrow>
                     (case u of
                        Some v \<Rightarrow> rt\<lparr>window := Some (setItem (js ''gg_user'') (stringify v) w)\<rparr>
                      | None \<Rightarrow> rt\<lparr>window := Some (removeItem (js ''gg_user'') w)\<rparr>))
      in rt1\<lparr>authStore := (authStore rt1)\<lparr>user := u\<rparr>\<rparr>)"

definition logout :: "Runtime \<Rightarrow> Runtime" where
  "logout rt =
     (let rt1 = (case window rt of
                   None \<Rightarrow> rt
                 | Some w \<Rightarrow>
                     rt\<lparr>window := Some (removeItem (js ''gg_user'') (removeItem (js ''gg_token'') w))\<rparr>)
      in rt1\<lparr>authStore := (authStore rt1)\<lparr>token := None, user := None\<rparr>\<rparr>)"

text \<open>
  The error an HTTP call rejects with: \<open>response\<close> is absent when no response
  arrived (\<^verbatim>\<open>err?.response\<close> is \<^verbatim>\<open>undefined\<close>).
\<close>

record 'd Response =
  status :: int
  data :: 'd

record 'd RequestError =
  response :: "'d Response option"

text \<open>
  The rejection handler of \<^verbatim>\<open>api.interceptors.response\<close>: the promise it returns
  (always rejected with the same error), the runtime afterwards, and what it wrote
  with \<^verbatim>\<open>console.error\<close>.
\<close>

definition response_rejected ::
  "'d RequestError \<Rightarrow> Runtime \<Rightarrow> ('d RequestError + 'r) \<times> Runtime \<times> (string \<times> int \<times> 'd) list" where
  "response_rejected err rt =
     (let rt1 = (if map_option status (response err) = Some 401
                 then (let rt2 = logout rt
                       in case window rt2 of
                            None \<Rightarrow> rt2
                          | Some w \<Rightarrow> rt2\<lparr>window := Some (w\<lparr>location_href := js ''/login''\<rparr>)\<rparr>)
                 else rt);
          logged = (case response err of
                      None \<Rightarrow> []
                    | Some r \<Rightarrow> [(''API Error:'', status r, data r)])
      in (Inl err, rt1, logged))"

text \<open>The fulfilment handler \<^verbatim>\<open>(res) => res\<close>.\<close>

definition response_fulfilled :: "'r \<Rightarrow> 'r" where
  "response_fulfilled res = res"

section \<open>JavaScript numbers\<close>

text \<open>
  A JavaScript number is an IEEE 754 binary64 value. The finite ones are represented
  by the rational they denote; signed zeros are not distinguished.
  \<open>to_double x\<close> is the binary64 value nearest to \<open>x\<close> (ties to the even
  significand), with a significand of 53 bits. Overflow and the subnormal range are
  left out: the operands here are counts below \<open>2 ^ 53\<close> and the constant 100.
\<close>

datatype number = Finite rat | NaN | PosInfinity | NegInfinity

definition round_half_even :: "rat \<Rightarrow> int" where
  "round_half_even r =
     (let f = \<lfloor>r\<rfloor>; d = r - of_int f
      in if d < 1 / 2 then f else if 1 / 2 < d then f + 1 else if even f then f else f + 1)"

text \<open>The binary exponent of a positive rational: \<open>2 powi exponent x \<le> x < 2 powi (exponent x + 1)\<close>.\<close>

definition exponent :: "rat \<Rightarrow> int" where
  "exponent x =
     (let (p, q) = quotient_of x; k = bitlen p - bitlen q
      in if 2 powi k \<le> x then k else k - 1)"

definition to_double :: "rat \<Rightarrow> rat" where
  "to_double x =
     (if x = 0 then 0
      else let a = \<bar>x\<bar>; ulp = 2 powi (exponent a - 52)
           in sgn x * of_int (round_half_even (a / ulp)) * ulp)"

text \<open>\<^verbatim>\<open>a / b\<close> on two finite numbers, \<^verbatim>\<open>x * b\<close> with a finite \<open>b\<close>, and \<^verbatim>\<open>Math.round\<close>.\<close>

definition js_divide :: "rat \<Rightarrow> rat \<Rightarrow> number" where
  "js_divide a b =
     (if b = 0 then (if a = 0 then NaN else if 0 < a then PosInfinity else NegInfinity)
      else Finite (to_double (a / b)))"

fun js_times :: "number \<Rightarrow> rat \<Rightarrow> number" where
  "js_times (Finite a) b = Finite (to_double (a * b))"
| "js_times NaN b = NaN"
| "js_times PosInfinity b = (if b = 0 then NaN else if 0 < b then PosInfinity else NegInfinity)"
| "js_times NegInfinity b = (if b = 0 then NaN else if 0 < b then NegInfinity else PosInfinity)"

fun Math_round :: "number \<Rightarrow> number" where
  "Math_round (Finite a) = Finite (of_int \<lfloor>a + 1 / 2\<rfloor>)"
| "Math_round NaN = NaN"
| "Math_round PosInfinity = PosInfinity"
| "Math_round NegInfinity = NegInfinity"

section \<open>Quiz page (\<^verbatim>\<open>pages/Quiz.tsx\<close>)\<close>

text \<open>Times are whole seconds and points are whole numbers.\<close>

record QuizQuestion =
  q_id :: jsstring
  question :: jsstring
  options :: "jsstring list"
  answer :: int
  explanation :: jsstring
  skill :: "jsstring option"

record QuizResponse =
  r_id :: jsstring
  selected :: int
  correctIndex :: int
  correctLabel :: "jsstring option"
  r_explanation :: jsstring
  r_skill :: "jsstring option"
  isCorrect :: bool
  timeTaken :: int
  timedOut :: bool

datatype quiz_mode = concept | interview | rapid

datatype quiz_difficulty = beginner | intermediate | advanced

definition DEFAULT_TIME_LIMIT :: int where
  "DEFAULT_TIME_LIMIT = 60"

record QuizMeta =
  timePerQuestion :: int
  pointsPerCorrect :: int
  totalAvailable :: int

type_synonym recommendation = "jsstring \<times> (jsstring \<times> jsstring \<times> jsstring) list"
type_synonym next_step = "jsstring \<times> jsstring option \<times> jsstring option"

record QuizSummary =
  score :: number
  awarded_xp :: "int option"
  badges_earned :: "jsstring list"
  strengths :: "jsstring list"
  weaknesses :: "jsstring list"
  recommendations :: "recommendation list"
  suggested_next_steps :: "next_step list"
  total_points :: int
  streak_bonus :: int
  max_streak :: int
  time_spent_seconds :: int
  points_per_correct :: int

text \<open>
  The state of the component: one field for each \<^verbatim>\<open>useState\<close>, and \<open>countdownRef\<close>
  for the ref that holds the running interval (\<open>True\<close>: an interval is running).
\<close>

record QuizState =
  activeDomain :: jsstring
  mode :: quiz_mode
  difficulty :: quiz_difficulty
  questions :: "QuizQuestion list"
  currentIndex :: nat
  selectedOption :: "int option"
  isAnswerSubmitted :: bool
  responses :: "QuizResponse list"
  correctCount :: nat
  isLoading :: bool
  error :: "jsstring option"
  summary :: "QuizSummary option"
  isSubmittingResults :: bool
  quizMeta :: "QuizMeta option"
  questionTimeLeft :: int
  currentPoints :: int
  currentStreak :: nat
  maxStreakLive :: int
  totalTimeSpent :: int
  countdownRef :: bool

text \<open>The body of the request to \<^verbatim>\<open>/quiz/submit\<close>.\<close>

record SubmittedResponse =
  p_id :: jsstring
  p_selected :: int
  p_correct :: int
  p_correctLabel :: "jsstring option"
  p_explanation :: jsstring
  p_skill :: "jsstring option"
  p_time_taken :: int

record QuizPayload =
  p_domain :: jsstring
  p_mode :: quiz_mode
  p_difficulty :: quiz_difficulty
  p_score :: number
  p_total_questions :: nat
  p_total_time_taken :: int
  p_responses :: "SubmittedResponse list"

text \<open>What the backend answers to the submission, each field possibly absent.\<close>

record SubmitResult =
  res_awarded_xp :: "int option"
  res_badges :: "jsstring list option"
  res_strengths :: "jsstring list option"
  res_weaknesses :: "jsstring list option"
  res_recommendations :: "recommendation list option"
  res_suggested_next_steps :: "next_step list option"
  res_total_points :: "int option"
  res_streak_bonus :: "int option"
  res_max_streak :: "int option"
  res_time_spent_seconds :: "int option"
  res_points_per_correct :: "int option"

record RequestFailure =
  failure_detail :: "jsstring option"
  failure_message :: "jsstring option"

text \<open>
  What a handler does besides updating the state. A handler is a closure created by
  a render: it reads the state variables of that render (its first argument below,
  \<open>snap\<close>), while the updates it makes go to the current state (\<open>st\<close>), and an
  updater function \<^verbatim>\<open>setX(prev => ...)\<close> reads the current value. \<open>AdvanceLater snap\<close>
  is the \<^verbatim>\<open>window.setTimeout(..., 1200)\<close> of \<open>handleTimeExpired\<close>: the callback it
  schedules closes over the same render.
\<close>

datatype effect =
    Toast jsstring
  | ToastLater jsstring
  | Request QuizPayload
  | AdvanceLater QuizState
  | GainXp int
  | GainBadges "jsstring list"
  | Confetti

text \<open>\<^verbatim>\<open>a || b\<close> on optional strings and numbers: an absent, empty or zero \<open>a\<close> gives \<open>b\<close>.\<close>

definition or_string :: "jsstring option \<Rightarrow> jsstring \<Rightarrow> jsstring" where
  "or_string a b = (case a of None \<Rightarrow> b | Some s \<Rightarrow> if s = [] then b else s)"

definition or_int :: "int option \<Rightarrow> int \<Rightarrow> int" where
  "or_int a b = (case a of None \<Rightarrow> b | Some v \<Rightarrow> if v = 0 then b else v)"

definition or_list :: "'a list option \<Rightarrow> 'a list" where
  "or_list a = (case a of None \<Rightarrow> [] | Some xs \<Rightarrow> xs)"

text \<open>\<^verbatim>\<open>questions[currentIndex]\<close>, \<^verbatim>\<open>undefined\<close> out of range.\<close>

definition currentQuestion :: "QuizState \<Rightarrow> QuizQuestion option" where
  "currentQuestion s =
     (if currentIndex s < length (questions s) then Some (questions s ! currentIndex s) else None)"

text \<open>\<^verbatim>\<open>currentQuestion.options[currentQuestion.answer]\<close>\<close>

definition answer_label :: "QuizQuestion \<Rightarrow> jsstring option" where
  "answer_label q =
     (if 0 \<le> answer q \<and> nat (answer q) < length (options q)
      then Some (options q ! nat (answer q)) else None)"

text \<open>\<^verbatim>\<open>quizMeta?.timePerQuestion ?? DEFAULT_TIME_LIMIT\<close>\<close>

definition totalWindow :: "QuizState \<Rightarrow> int" where
  "totalWindow s = (case quizMeta s of None \<Rightarrow> DEFAULT_TIME_LIMIT | Some m \<Rightarrow> timePerQuestion m)"

text \<open>\<^verbatim>\<open>responses.some((resp) => resp.id === q.id)\<close>\<close>

definition answered :: "QuizState \<Rightarrow> QuizQuestion \<Rightarrow> bool" where
  "answered s q = (q_id q \<in> set (map r_id (responses s)))"

text \<open>\<^verbatim>\<open>currentIndex === questions.length - 1\<close>, on numbers: false for an empty list.\<close>

definition on_last_question :: "QuizState \<Rightarrow> bool" where
  "on_last_question s = (int (currentIndex s) = int (length (questions s)) - 1)"

definition initial_quiz :: "jsstring \<Rightarrow> QuizState" where
  "initial_quiz domainLabel =
     \<lparr>activeDomain = domainLabel, mode = concept, difficulty = intermediate, questions = [],
      currentIndex = 0, selectedOption = None, isAnswerSubmitted = False, responses = [],
      correctCount = 0, isLoading = False, error = None, summary = None,
      isSubmittingResults = False, quizMeta = None, questionTimeLeft = DEFAULT_TIME_LIMIT,
      currentPoints = 0, currentStreak = 0, maxStreakLive = 0, totalTimeSpent = 0,
      countdownRef = False\<rparr>"

text \<open>\<open>loadQuiz\<close> up to the request, and its continuation when the request settles.\<close>

definition loadQuiz :: "QuizState \<Rightarrow> QuizState \<Rightarrow> QuizState" where
  "loadQuiz snap st =
     (if activeDomain snap = [] then st
      else st\<lparr>countdownRef := False, isLoading := True, error := None, summary := None,
              questions := [], responses := [], currentIndex := 0, selectedOption := None,
              isAnswerSubmitted := False, correctCount := 0, currentPoints := 0,
              currentStreak := 0, maxStreakLive := 0, totalTimeSpent := 0, quizMeta := None\<rparr>)"

record QuizData =
  items :: "QuizQuestion list option"
  meta_time_per_question :: "int option"
  meta_points_per_correct :: "int option"
  meta_total_available :: "int option"

definition loadQuiz_settled :: "RequestFailure + QuizData \<Rightarrow> QuizState \<Rightarrow> QuizState" where
  "loadQuiz_settled outcome st =
     (case outcome of
        Inl err \<Rightarrow>
          st\<lparr>error := Some (or_string (failure_detail err)
                               (or_string (failure_message err) (js ''Unable to load quiz.''))),
             isLoading := False\<rparr>
      | Inr d \<Rightarrow>
          if or_list (items d) = []
          then st\<lparr>error := Some (js ''No questions available yet. Try a different mode or difficulty.''),
                  isLoading := False\<rparr>
          else
            (let tpq = (case meta_time_per_question d of None \<Rightarrow> DEFAULT_TIME_LIMIT | Some t \<Rightarrow> t);
                 ppc = (case meta_points_per_correct d of None \<Rightarrow> 20 | Some p \<Rightarrow> p);
                 tot = (case meta_total_available d of
                          None \<Rightarrow> int (length (or_list (items d))) | Some t \<Rightarrow> t)
             in st\<lparr>questions := or_list (items d),
                    quizMeta := Some \<lparr>timePerQuestion = tpq, pointsPerCorrect = ppc,
                                       totalAvailable = tot\<rparr>,
                    questionTimeLeft := tpq,
                    isLoading := False\<rparr>))"

definition handleSelectOption :: "QuizState \<Rightarrow> int \<Rightarrow> QuizState \<Rightarrow> QuizState" where
  "handleSelectOption snap optionIdx st =
     (if isAnswerSubmitted snap then st else st\<lparr>selectedOption := Some optionIdx\<rparr>)"

definition handleSubmitAnswer :: "QuizState \<Rightarrow> QuizState \<Rightarrow> QuizState \<times> effect list" where
  "handleSubmitAnswer snap st =
     (case (selectedOption snap, currentQuestion snap) of
        (Some sel, Some q) \<Rightarrow>
          if answered snap q then (st, [])
          else
            (let timeTakenRaw = totalWindow snap - questionTimeLeft snap;
                 taken = max 1 (min (totalWindow snap) timeTakenRaw);
                 correct = (sel = answer q);
                 st1 = st\<lparr>isAnswerSubmitted := True\<rparr>;
                 st2 = (if correct
                        then st1\<lparr>correctCount := correctCount st1 + 1,
                                 currentPoints := currentPoints st1 +
                                   (case quizMeta snap of None \<Rightarrow> 20 | Some m \<Rightarrow> pointsPerCorrect m),
                                 currentStreak := currentStreak st1 + 1,
                                 maxStreakLive := max (maxStreakLive st1) (int (currentStreak st1 + 1))\<rparr>
                        else st1\<lparr>currentStreak := 0\<rparr>)
             in (st2\<lparr>totalTimeSpent := totalTimeSpent st2 + taken,
                     responses := responses st2 @
                       [\<lparr>r_id = q_id q, selected = sel, correctIndex = answer q,
                         correctLabel = answer_label q, r_explanation = explanation q,
                         r_skill = skill q, isCorrect = correct, timeTaken = taken,
                         timedOut = False\<rparr>]\<rparr>, []))
      | _ \<Rightarrow> (st, [Toast (js ''Select an option first.'')]))"

text \<open>\<^verbatim>\<open>Math.round((correctCount / questions.length) * 100)\<close>\<close>

definition quiz_score :: "nat \<Rightarrow> nat \<Rightarrow> number" where
  "quiz_score c n = Math_round (js_times (js_divide (of_nat c) (of_nat n)) 100)"

definition submitted :: "QuizResponse \<Rightarrow> SubmittedResponse" where
  "submitted r =
     \<lparr>p_id = r_id r, p_selected = selected r, p_correct = (if isCorrect r then 1 else 0),
      p_correctLabel = correctLabel r, p_explanation = r_explanation r, p_skill = r_skill r,
      p_time_taken = timeTaken r\<rparr>"

text \<open>\<open>handleFinishQuiz\<close> up to the request.\<close>

definition handleFinishQuiz :: "QuizState \<Rightarrow> QuizState \<Rightarrow> QuizState \<times> effect list" where
  "handleFinishQuiz snap st =
     (if length (responses snap) \<noteq> length (questions snap)
      then (st, [Toast (js ''Answer every question to finish.'')])
      else (st\<lparr>isSubmittingResults := True\<rparr>,
            [Request \<lparr>p_domain = activeDomain snap, p_mode = mode snap,
                      p_difficulty = difficulty snap,
                      p_score = quiz_score (correctCount snap) (length (questions snap)),
                      p_total_questions = length (questions snap),
                      p_total_time_taken = totalTimeSpent snap,
                      p_responses = map submitted (responses snap)\<rparr>]))"

text \<open>The rest of \<open>handleFinishQuiz\<close>, when the request of the payload \<open>p\<close> settles.\<close>

definition handleFinishQuiz_settled ::
  "QuizState \<Rightarrow> QuizPayload \<Rightarrow> RequestFailure + SubmitResult \<Rightarrow> QuizState \<Rightarrow> QuizState \<times> effect list" where
  "handleFinishQuiz_settled snap p outcome st =
     (case outcome of
        Inl err \<Rightarrow>
          (st\<lparr>isSubmittingResults := False\<rparr>,
           [Toast (or_string (failure_detail err)
                     (or_string (failure_message err) (js ''Could not save your results.'')))])
      | Inr result \<Rightarrow>
          (st\<lparr>summary := Some
                 \<lparr>score = p_score p,
                  awarded_xp = res_awarded_xp result,
                  badges_earned = or_list (res_badges result),
                  strengths = or_list (res_strengths result),
                  weaknesses = or_list (res_weaknesses result),
                  recommendations = or_list (res_recommendations result),
                  suggested_next_steps = or_list (res_suggested_next_steps result),
                  total_points = or_int (res_total_points result) 0,
                  streak_bonus = or_int (res_streak_bonus result) 0,
                  max_streak = or_int (res_max_streak result) 0,
                  time_spent_seconds = or_int (res_time_spent_seconds result) (totalTimeSpent snap),
                  points_per_correct = or_int (res_points_per_correct result)
                     (case quizMeta snap of None \<Rightarrow> 0 | Some m \<Rightarrow> pointsPerCorrect m)\<rparr>,
              currentPoints := (case res_total_points result of
                                  None \<Rightarrow> currentPoints snap | Some t \<Rightarrow> t),
              maxStreakLive := (case res_max_streak result of
                                  None \<Rightarrow> maxStreakLive st | Some m \<Rightarrow> max (maxStreakLive st) m),
              currentStreak := 0,
              isSubmittingResults := False\<rparr>,
           [GainXp (or_int (res_awarded_xp result) 0)]
           @ (case res_badges result of None \<Rightarrow> [] | Some bs \<Rightarrow> [GainBadges bs])
           @ (if p_score p = Finite 100 then [Confetti] else [])))"

text \<open>Moving to the next question, as both \<open>handleNextQuestion\<close> and the expiry callback do.\<close>

definition next_question :: "QuizState \<Rightarrow> QuizState \<Rightarrow> QuizState" where
  "next_question snap st =
     st\<lparr>currentIndex := currentIndex st + 1, selectedOption := None,
        isAnswerSubmitted := False, questionTimeLeft := totalWindow snap\<rparr>"

definition handleNextQuestion :: "QuizState \<Rightarrow> QuizState \<Rightarrow> QuizState \<times> effect list" where
  "handleNextQuestion snap st =
     (if \<not> isAnswerSubmitted snap
      then (st, [Toast (js ''Submit your answer before continuing.'')])
      else if on_last_question snap then handleFinishQuiz snap (st\<lparr>countdownRef := False\<rparr>)
      else (next_question snap (st\<lparr>countdownRef := False\<rparr>), []))"

text \<open>
  \<open>handleTimeExpired\<close>, and the callback it schedules for 1200 ms later. The callback
  calls the \<open>handleFinishQuiz\<close> of the render that created \<open>handleTimeExpired\<close>.
\<close>

definition handleTimeExpired :: "QuizState \<Rightarrow> QuizState \<Rightarrow> QuizState \<times> effect list" where
  "handleTimeExpired snap st =
     (case currentQuestion snap of
        None \<Rightarrow> (st, [])
      | Some q \<Rightarrow>
          if isAnswerSubmitted snap then (st, [])
          else if answered snap q then (st, [])
          else
            (st\<lparr>isAnswerSubmitted := True,
                selectedOption := Some (- 1),
                currentStreak := 0,
                totalTimeSpent := totalTimeSpent st + totalWindow snap,
                responses := responses st @
                  [\<lparr>r_id = q_id q, selected = - 1, correctIndex = answer q,
                    correctLabel = answer_label q, r_explanation = explanation q,
                    r_skill = skill q, isCorrect = False, timeTaken = totalWindow snap,
                    timedOut = True\<rparr>],
                questionTimeLeft := 0,
                countdownRef := False\<rparr>,
             [ToastLater (js ''Time's up!''), AdvanceLater snap]))"

definition expiry_callback :: "QuizState \<Rightarrow> QuizState \<Rightarrow> QuizState \<times> effect list" where
  "expiry_callback snap st =
     (if on_last_question snap then handleFinishQuiz snap st
      else (next_question snap st, []))"

text \<open>
  The countdown effect, run after a render with the state of that render (the
  clean-up of its previous run has cleared the interval), and the callback of the
  interval it starts, run every second while the interval lives.
\<close>

definition countdown_effect :: "QuizState \<Rightarrow> QuizState" where
  "countdown_effect st =
     (case quizMeta st of
        None \<Rightarrow> st\<lparr>countdownRef := False\<rparr>
      | Some m \<Rightarrow>
          if summary st \<noteq> None \<or> isLoading st \<or> questions st = []
          then st\<lparr>countdownRef := False\<rparr>
          else if isAnswerSubmitted st then st\<lparr>countdownRef := False\<rparr>
          else st\<lparr>questionTimeLeft :=
                     (if questionTimeLeft st \<le> 0 \<or> timePerQuestion m < questionTimeLeft st
                      then timePerQuestion m else questionTimeLeft st),
                   countdownRef := True\<rparr>)"

definition countdown_tick :: "QuizState \<Rightarrow> QuizState \<Rightarrow> QuizState \<times> effect list" where
  "countdown_tick snap st =
     (if questionTimeLeft st \<le> 1
      then (let (st1, effects) = handleTimeExpired snap (st\<lparr>countdownRef := False\<rparr>)
            in (st1\<lparr>questionTimeLeft := 0\<rparr>, effects))
      else (st\<lparr>questionTimeLeft := questionTimeLeft st - 1\<rparr>, []))"

text \<open>
  The states the component can be in. Every handler may run as a closure of any
  earlier render, so the render \<open>snap\<close> a handler reads is any reachable state.
\<close>

inductive reachable :: "QuizState \<Rightarrow> bool" where
  mounted: "reachable (initial_quiz domainLabel)"
| setActiveDomain: "reachable st \<Longrightarrow> reachable (st\<lparr>activeDomain := d\<rparr>)"
| setMode: "reachable st \<Longrightarrow> reachable (st\<lparr>mode := m\<rparr>)"
| setDifficulty: "reachable st \<Longrightarrow> reachable (st\<lparr>difficulty := l\<rparr>)"
| load: "reachable snap \<Longrightarrow> reachable st \<Longrightarrow> reachable (loadQuiz snap st)"
| load_settled: "reachable st \<Longrightarrow> reachable (loadQuiz_settled outcome st)"
| select: "reachable snap \<Longrightarrow> reachable st \<Longrightarrow> reachable (handleSelectOption snap i st)"
| lock: "reachable snap \<Longrightarrow> reachable st \<Longrightarrow> reachable (fst (handleSubmitAnswer snap st))"
| advance: "reachable snap \<Longrightarrow> reachable st \<Longrightarrow> reachable (fst (handleNextQuestion snap st))"
| finish_settled:
    "reachable snap \<Longrightarrow> reachable st \<Longrightarrow> reachable (fst (handleFinishQuiz_settled snap p outcome st))"
| expired: "reachable snap \<Longrightarrow> reachable st \<Longrightarrow> reachable (fst (handleTimeExpired snap st))"
| callback: "reachable snap \<Longrightarrow> reachable st \<Longrightarrow> reachable (fst (expiry_callback snap st))"
| rendered: "reachable st \<Longrightarrow> reachable (countdown_effect st)"
| tick: "reachable snap \<Longrightarrow> reachable st \<Longrightarrow> reachable (fst (countdown_tick snap st))"

text \<open>
  Sample runs. \<open>start_quiz qs t\<close>: the page after the questions \<open>qs\<close> have loaded with
  \<open>t\<close> seconds per question. \<open>play\<close>: for each question in turn the user selects the
  given option, locks it, and moves on unless it was the last question. Each handler
  is the closure of the latest render.
\<close>

definition sample_question :: "nat \<Rightarrow> QuizQuestion" where
  "sample_question i =
     \<lparr>q_id = [cu CHR ''q'', of_nat (48 + i)], question = js ''Pick the first option'',
      options = [js ''first'', js ''second''], answer = 0,
      explanation = js ''The first option is right'', skill = None\<rparr>"

definition start_quiz :: "QuizQuestion list \<Rightarrow> int \<Rightarrow> QuizState" where
  "start_quiz qs t =
     (let s0 = initial_quiz (js ''Cybersecurity'');
          s1 = loadQuiz s0 s0;
          s2 = loadQuiz_settled
                 (Inr \<lparr>items = Some qs, meta_time_per_question = Some t,
                        meta_points_per_correct = None, meta_total_available = None\<rparr>) s1
      in countdown_effect s2)"

fun play :: "int list \<Rightarrow> QuizState \<Rightarrow> QuizState" where
  "play [] st = st"
| "play (sel # sels) st =
     (let s1 = handleSelectOption st sel st;
          s2 = countdown_effect (fst (handleSubmitAnswer s1 s1));
          s3 = (if on_last_question s2 then s2
                else countdown_effect (fst (handleNextQuestion s2 s2)))
      in play sels s3)"

fun requested_scores :: "effect list \<Rightarrow> number list" where
  "requested_scores [] = []"
| "requested_scores (Request p # es) = p_score p # requested_scores es"
| "requested_scores (e # es) = requested_scores es"

text \<open>A quiz of 40 questions, played to the end with 23 correct answers.\<close>

definition tie_quiz :: QuizState where
  "tie_quiz = play (replicate 23 0 @ replicate 17 1) (start_quiz (map sample_question [0..<40]) 60)"

text \<open>
  Two loads that overlap: the mode is changed while the first load is pending, which
  starts a second load; the first reply arrives with one question, the user answers
  it, and then the second reply arrives with another question.
\<close>

definition overlapping_loads :: QuizState where
  "overlapping_loads =
     (let s0 = initial_quiz (js ''Cybersecurity'');
          s1 = loadQuiz s0 s0;
          s2 = s1\<lparr>mode := rapid\<rparr>;
          s3 = loadQuiz s2 s2;
          s4 = countdown_effect (loadQuiz_settled
                 (Inr \<lparr>items = Some [sample_question 0], meta_time_per_question = None,
                        meta_points_per_correct = None, meta_total_available = None\<rparr>) s3);
          s5 = handleSelectOption s4 0 s4;
          s6 = countdown_effect (fst (handleSubmitAnswer s5 s5))
      in countdown_effect (loadQuiz_settled
           (Inr \<lparr>items = Some [sample_question 1], meta_time_per_question = None,
                  meta_points_per_correct = None, meta_total_available = None\<rparr>) s6))"

section \<open>University search hook (\<^verbatim>\<open>useUniversitySearch\<close>)\<close>

record University =
  name :: jsstring
  country :: jsstring

definition university :: "string \<Rightarrow> string \<Rightarrow> University" where
  "university n c = \<lparr>name = js n, country = js c\<rparr>"

definition FALLBACK_UNIVERSITIES :: "University list" where
  "FALLBACK_UNIVERSITIES =
     [university ''Amrita Vishwa Vidyapeetham'' ''India'',
      university ''VIT University (Vellore Institute of Technology)'' ''India'',
      university ''Indian Institute of Technology Delhi'' ''India'',
      university ''Indian Institute of Technology Bombay'' ''India'',
      university ''Indian Institute of Technology Madras'' ''India'',
      university ''Indian Institute of Technology Kanpur'' ''India'',
      university ''Indian Institute of Technology Kharagpur'' ''India'',
      university ''Delhi University'' ''India'',
      university ''Jawaharlal Nehru University'' ''India'',
      university ''Birla Institute of Technology'' ''India'',
      university ''Manipal Institute of Technology'' ''India'',
      university ''SRM Institute of Science and Technology'' ''India'',
      university ''Chandigarh University'' ''India'',
      university ''PES University'' ''India'',
      university ''NIT Trichy'' ''India'',
      university ''NIT Warangal'' ''India'',
      university ''Massachusetts Institute of Technology'' ''United States'',
      university ''Stanford University'' ''United States'',
      university ''Harvard University'' ''United States'',
      university ''University of California, Berkeley'' ''United States'',
      university ''Carnegie Mellon University'' ''United States'',
      university ''University of Cambridge'' ''United Kingdom'',
      university ''Oxford University'' ''United Kingdom'',
      university ''ETH Zurich'' ''Switzerland'',
      university ''University of Toronto'' ''Canada'']"

text \<open>\<^verbatim>\<open>s.includes(t)\<close>: \<open>t\<close> occurs in \<open>s\<close> as a contiguous run of code units.\<close>

fun string_includes :: "jsstring \<Rightarrow> jsstring \<Rightarrow> bool" where
  "string_includes [] t = (t = [])"
| "string_includes (c # s) t = (take (length t) (c # s) = t \<or> string_includes s t)"

text \<open>
  The fallback branch of the lookup. \<open>toLowerCase\<close> is the built-in
  \<^verbatim>\<open>String.prototype.toLowerCase\<close>, an argument of the model.
\<close>

definition fallback_for :: "(jsstring \<Rightarrow> jsstring) \<Rightarrow> jsstring \<Rightarrow> University list" where
  "fallback_for toLowerCase query =
     (let filtered = filter (\<lambda>u. string_includes (toLowerCase (name u)) (toLowerCase query))
                       FALLBACK_UNIVERSITIES
      in if filtered \<noteq> [] then filtered else take 10 FALLBACK_UNIVERSITIES)"

text \<open>Lower case of the letters \<open>A\<close> to \<open>Z\<close>, which is \<^verbatim>\<open>toLowerCase\<close> on ASCII strings.\<close>

definition ascii_toLowerCase :: "jsstring \<Rightarrow> jsstring" where
  "ascii_toLowerCase s = map ascii_lower s"

text \<open>
  The hook and what surrounds it. Besides the three state variables and the ref
  there are: the module variable \<open>apiDisabled\<close>; a clock in milliseconds; the abort
  controllers created so far, numbered from 0, and those of them that were aborted;
  the pending debounce timer, with the query its callback closes over and the time it
  is due; whether the last run of the effect returned a clean-up function; and the
  requests in flight, each with the query of its lookup, its controller and the time
  its 3-second timer is due.
\<close>

record SearchState =
  query :: jsstring
  debounceMs :: nat
  universities :: "University list"
  loading :: bool
  search_error :: "jsstring option"
  abortControllerRef :: "nat option"
  apiDisabled :: bool
  clock :: nat
  controllers :: nat
  aborted :: "nat list"
  debounce_timer :: "(jsstring \<times> nat) option"
  has_cleanup :: bool
  in_flight :: "(jsstring \<times> nat \<times> nat) list"

text \<open>\<^verbatim>\<open>abortControllerRef.current?.abort()\<close>\<close>

definition abort_current :: "SearchState \<Rightarrow> SearchState" where
  "abort_current st =
     (case abortControllerRef st of None \<Rightarrow> st | Some c \<Rightarrow> st\<lparr>aborted := c # aborted st\<rparr>)"

text \<open>The clean-up function the effect returns, and the body of the effect.\<close>

definition cleanup :: "SearchState \<Rightarrow> SearchState" where
  "cleanup st = abort_current (st\<lparr>debounce_timer := None\<rparr>)"

definition effect_body :: "SearchState \<Rightarrow> SearchState" where
  "effect_body st =
     (if query st = [] \<or> length (query st) < 2
      then st\<lparr>universities := [], has_cleanup := False\<rparr>
      else (abort_current st)
             \<lparr>debounce_timer := Some (query st, clock st + debounceMs st), has_cleanup := True\<rparr>)"

text \<open>The first render with its effect, and a later render with new arguments.\<close>

definition mount :: "bool \<Rightarrow> jsstring \<Rightarrow> nat \<Rightarrow> SearchState" where
  "mount disabled q d =
     effect_body
       \<lparr>query = q, debounceMs = d, universities = [], loading = False, search_error = None,
        abortControllerRef = None, apiDisabled = disabled, clock = 0, controllers = 0,
        aborted = [], debounce_timer = None, has_cleanup = False, in_flight = []\<rparr>"

definition render :: "jsstring \<Rightarrow> nat \<Rightarrow> SearchState \<Rightarrow> SearchState" where
  "render q d st =
     (if q = query st \<and> d = debounceMs st then st
      else effect_body ((if has_cleanup st then cleanup st else st)\<lparr>query := q, debounceMs := d\<rparr>))"

text \<open>The end of the debounce callback, from the comment \<^verbatim>\<open>// Use fallback\<close> on.\<close>

definition use_fallback :: "(jsstring \<Rightarrow> jsstring) \<Rightarrow> jsstring \<Rightarrow> SearchState \<Rightarrow> SearchState" where
  "use_fallback toLowerCase q st =
     st\<lparr>universities := fallback_for toLowerCase q, loading := False\<rparr>"

text \<open>
  The debounce callback up to the \<^verbatim>\<open>fetch\<close>; it runs when its timer is due.
\<close>

definition debounced :: "(jsstring \<Rightarrow> jsstring) \<Rightarrow> SearchState \<Rightarrow> SearchState" where
  "debounced toLowerCase st =
     (case debounce_timer st of
        None \<Rightarrow> st
      | Some (q, due) \<Rightarrow>
          if clock st < due then st
          else
            (let st1 = st\<lparr>debounce_timer := None, loading := True, search_error := None\<rparr>;
                 useFallback = (apiDisabled st1 \<or> length q < 3)
             in if \<not> useFallback \<and> \<not> apiDisabled st1
                then st1\<lparr>abortControllerRef := Some (controllers st1),
                         controllers := controllers st1 + 1,
                         in_flight := in_flight st1 @ [(q, controllers st1, clock st1 + 3000)]\<rparr>
                else use_fallback toLowerCase q st1))"

text \<open>
  How a request settles: with a body that parsed (\<open>None\<close>: not an array), with a
  response that is not ok, or with an error other than an abort. A request whose
  controller was aborted settles with an \<^verbatim>\<open>AbortError\<close>, whatever arrived.
\<close>

datatype outcome = Json "University list option" | NotOk | Failed

definition settle ::
  "(jsstring \<Rightarrow> jsstring) \<Rightarrow> nat \<Rightarrow> outcome \<Rightarrow> SearchState \<Rightarrow> SearchState" where
  "settle toLowerCase i out st =
     (if length (in_flight st) \<le> i then st
      else
        (let (q, c, due) = in_flight st ! i;
             st1 = st\<lparr>in_flight := take i (in_flight st) @ drop (Suc i) (in_flight st)\<rparr>
         in if c \<in> set (aborted st) then use_fallback toLowerCase q st1
            else (case out of
                    Json (Some (u # us)) \<Rightarrow> st1\<lparr>universities := take 10 (u # us), loading := False\<rparr>
                  | Json _ \<Rightarrow> use_fallback toLowerCase q st1
                  | NotOk \<Rightarrow> use_fallback toLowerCase q st1
                  | Failed \<Rightarrow> use_fallback toLowerCase q (st1\<lparr>apiDisabled := True\<rparr>))))"

text \<open>The 3-second timer of the request \<open>i\<close>, when due while the request is in flight.\<close>

definition request_timeout :: "nat \<Rightarrow> SearchState \<Rightarrow> SearchState" where
  "request_timeout i st =
     (if length (in_flight st) \<le> i then st
      else (let (q, c, due) = in_flight st ! i
            in if clock st < due then st else abort_current st))"

datatype event =
    Render jsstring nat
  | Elapse nat
  | Debounced
  | Settle nat outcome
  | RequestTimeout nat
  | Unmount

fun step :: "(jsstring \<Rightarrow> jsstring) \<Rightarrow> SearchState \<Rightarrow> event \<Rightarrow> SearchState" where
  "step toLowerCase st (Render q d) = render q d st"
| "step toLowerCase st (Elapse ms) = st\<lparr>clock := clock st + ms\<rparr>"
| "step toLowerCase st Debounced = debounced toLowerCase st"
| "step toLowerCase st (Settle i out) = settle toLowerCase i out st"
| "step toLowerCase st (RequestTimeout i) = request_timeout i st"
| "step toLowerCase st Unmount =
     (if has_cleanup st then (cleanup st)\<lparr>has_cleanup := False\<rparr> else st)"

definition run ::
  "(jsstring \<Rightarrow> jsstring) \<Rightarrow> bool \<Rightarrow> jsstring \<Rightarrow> nat \<Rightarrow> event list \<Rightarrow> SearchState" where
  "run toLowerCase disabled q d events = foldl (step toLowerCase) (mount disabled q d) events"

text \<open>What is read off the hook: \<^verbatim>\<open>{ universities, loading, error }\<close>.\<close>

definition useUniversitySearch :: "SearchState \<Rightarrow> University list \<times> bool \<times> jsstring option" where
  "useUniversitySearch st = (universities st, loading st, search_error st)"

text \<open>
  \<open>all_aborted st\<close>: every request in flight has an aborted controller.
  \<open>hook_inv\<close> collects what holds of the hook after every sequence of events.
\<close>

definition all_aborted :: "SearchState \<Rightarrow> bool" where
  "all_aborted st = list_all (\<lambda>(q, c, due). c \<in> set (aborted st)) (in_flight st)"

definition hook_inv :: "SearchState \<Rightarrow> bool" where
  "hook_inv st =
     (search_error st = None
      \<and> list_all (\<lambda>(q, c, due). c \<in> set (aborted st) \<or> abortControllerRef st = Some c)
           (in_flight st)
      \<and> (\<not> has_cleanup st \<longrightarrow> debounce_timer st = None)
      \<and> (\<not> has_cleanup st \<or> debounce_timer st \<noteq> None \<longrightarrow> all_aborted st)
      \<and> (case debounce_timer st of
            None \<Rightarrow> True
          | Some (q, due) \<Rightarrow> q = query st \<and> 2 \<le> length q \<and> due \<le> clock st + debounceMs st))"

section \<open>The matcher decides the meaning of a regular expression\<close>

inductive_cases matches_NeverE: "matches Never s"
inductive_cases matches_EmptyE: "matches Empty s"
inductive_cases matches_ClassE: "matches (Class p) s"
inductive_cases matches_ThenE: "matches (Then r s) w"
inductive_cases matches_OrE: "matches (Or r s) w"

lemma nullable_matches: "nullable r \<longleftrightarrow> matches r []"
proof (induction r)
  case Never
  show ?case by (auto elim: matches_NeverE)
next
  case Empty
  show ?case by (auto intro: matches.empty)
next
  case (Class p)
  show ?case by (auto elim: matches_ClassE)
next
  case (Then r s)
  have "matches (Then r s) [] \<longleftrightarrow> matches r [] \<and> matches s []"
  proof
    assume "matches (Then r s) []"
    then show "matches r [] \<and> matches s []" by (auto elim!: matches_ThenE)
  next
    assume "matches r [] \<and> matches s []"
    then have "matches (Then r s) ([] @ [])" by (intro matches.both) simp_all
    then show "matches (Then r s) []" by simp
  qed
  with Then show ?case by simp
next
  case (Or r s)
  then show ?case by (auto elim!: matches_OrE intro: matches.left matches.right)
next
  case (Many r)
  show ?case by (simp add: matches.none)
qed

lemma deriv_sound: "matches (deriv c r) s \<Longrightarrow> matches r (c # s)"
proof (induction r arbitrary: s)
  case Never
  then show ?case by (auto elim: matches_NeverE)
next
  case Empty
  then show ?case by (auto elim: matches_NeverE)
next
  case (Class p)
  then show ?case
    by (auto split: if_splits elim!: matches_NeverE matches_EmptyE intro: matches.one)
next
  case (Then r1 r2)
  have first: "matches (Then (deriv c r1) r2) s \<Longrightarrow> matches (Then r1 r2) (c # s)"
  proof -
    assume "matches (Then (deriv c r1) r2) s"
    then obtain u v where "s = u @ v" "matches (deriv c r1) u" "matches r2 v"
      by (auto elim!: matches_ThenE)
    with Then.IH(1) have "matches (Then r1 r2) ((c # u) @ v)" by (intro matches.both) simp_all
    with \<open>s = u @ v\<close> show ?thesis by simp
  qed
  have second: "nullable r1 \<Longrightarrow> matches (deriv c r2) s \<Longrightarrow> matches (Then r1 r2) (c # s)"
  proof -
    assume "nullable r1" and "matches (deriv c r2) s"
    then have "matches r1 []" and "matches r2 (c # s)"
      using Then.IH(2) by (simp_all add: nullable_matches)
    then have "matches (Then r1 r2) ([] @ (c # s))" by (rule matches.both)
    then show ?thesis by simp
  qed
  from Then.prems first second show ?case
    by (auto split: if_splits elim!: matches_OrE)
next
  case (Or r1 r2)
  then show ?case by (auto elim!: matches_OrE intro: matches.left matches.right)
next
  case (Many r)
  from Many.prems obtain u v where "s = u @ v" "matches (deriv c r) u" "matches (Many r) v"
    by (auto elim!: matches_ThenE)
  with Many.IH have "matches (Many r) ((c # u) @ v)" by (intro matches.more) simp_all
  with \<open>s = u @ v\<close> show ?case by simp
qed

lemma deriv_complete:
  assumes "matches r w" and "w = c # s"
  shows "matches (deriv c r) s"
  using assms
proof (induction arbitrary: s rule: matches.induct)
  case empty
  then show ?case by simp
next
  case (one p a)
  then show ?case by (simp add: matches.empty)
next
  case (both r u r' v)
  show ?case
  proof (cases u)
    case Nil
    with both have "nullable r" and "matches (deriv c r') s"
      by (simp_all add: nullable_matches)
    then show ?thesis by (simp add: matches.right)
  next
    case (Cons a u')
    with both.prems have s: "s = u' @ v" and "a = c" by simp_all
    with both.IH(1) Cons have "matches (deriv c r) u'" by simp
    then have "matches (Then (deriv c r) r') (u' @ v)" using both.hyps(2) by (rule matches.both)
    with s show ?thesis by (simp add: matches.left)
  qed
next
  case (left r u r')
  then show ?case by (simp add: matches.left)
next
  case (right r' u r)
  then show ?case by (simp add: matches.right)
next
  case (none r)
  then show ?case by simp
next
  case (more r u v)
  show ?case
  proof (cases u)
    case Nil
    with more show ?thesis by simp
  next
    case (Cons a u')
    with more.prems have s: "s = u' @ v" and "a = c" by simp_all
    with more.IH(1) Cons have "matches (deriv c r) u'" by simp
    then have "matches (Then (deriv c r) (Many r)) (u' @ v)" using more.hyps(2) by (rule matches.both)
    with s show ?thesis by simp
  qed
qed

lemma deriv_matches: "matches (deriv c r) s \<longleftrightarrow> matches r (c # s)"
  using deriv_sound deriv_complete by blast

lemma full_match_matches: "full_match r s \<longleftrightarrow> matches r s"
  by (induction s arbitrary: r) (simp_all add: nullable_matches deriv_matches)

lemma lookahead_matches: "lookahead r s \<longleftrightarrow> (\<exists>u v. s = u @ v \<and> matches r u)"
proof (induction s arbitrary: r)
  case Nil
  show ?case by (simp add: nullable_matches)
next
  case (Cons c s)
  have "(\<exists>u v. c # s = u @ v \<and> matches r u)
        \<longleftrightarrow> matches r [] \<or> (\<exists>u v. s = u @ v \<and> matches r (c # u))"
    by (auto simp: Cons_eq_append_conv) 
  with Cons show ?case by (simp add: nullable_matches deriv_matches)
qed

section \<open>Properties of the validators\<close>

lemma email_regex_not_nullable: "\<not> full_match email_regex []"
  by (simp add: email_regex_def at_least_one_def)

text \<open>
  C4 (amended). \<open>validateConfirmPassword\<close> accepts a pair of equal strings, with no
  message, whenever the confirmation is not the empty string.
\<close>

theorem validateConfirmPassword_equal:
  assumes "confirmPassword \<noteq> []" and "password = confirmPassword"
  shows "validateConfirmPassword password confirmPassword = \<lparr>valid = True, message = None\<rparr>"
  using assms by (simp add: validateConfirmPassword_def ok_def)

theorem validateConfirmPassword_equal_witness:
  "js ''Secret#1'' \<noteq> [] \<and>
   validateConfirmPassword (js ''Secret#1'') (js ''Secret#1'') = \<lparr>valid = True, message = None\<rparr>"
  using validateConfirmPassword_equal [of "js ''Secret#1''" "js ''Secret#1''"]
  by (simp add: js_def)

text \<open>
  C4 (as stated, refuted). For the empty string \<open>p\<close>, \<open>validateConfirmPassword p p\<close>
  is invalid: an empty confirmation is rejected before the two are compared.
\<close>

theorem validateConfirmPassword_empty_counterexample:
  "validateConfirmPassword (js []) (js []) =
     \<lparr>valid = False, message = Some (js ''Please confirm your password'')\<rparr>"
  by (simp add: validateConfirmPassword_def invalid_def js_def)

text \<open>
  C6. Every non-empty password of fewer than 8 code units is invalid, with the message
  \<open>Password must be at least 8 characters\<close>; the password \<open>short\<close> is one of them.
\<close>

theorem validatePassword_short:
  assumes "password \<noteq> []" and "length password < 8"
  shows "validatePassword password =
           \<lparr>valid = False, message = Some (js ''Password must be at least 8 characters'')\<rparr>"
  using assms by (simp add: validatePassword_def invalid_def)

theorem validatePassword_short_witness:
  "js ''short'' \<noteq> [] \<and> length (js ''short'') < 8 \<and>
   validatePassword (js ''short'') =
     \<lparr>valid = False, message = Some (js ''Password must be at least 8 characters'')\<rparr>"
  using validatePassword_short [of "js ''short''"] by (simp add: js_def)

text \<open>C7. \<open>validateEmail\<close> accepts \<open>a@b.com\<close>, with no message.\<close>

theorem validateEmail_a_b_com:
  "validateEmail (js ''a@b.com'') = \<lparr>valid = True, message = None\<rparr>"
  by code_simp

text \<open>
  C8. An email that matches the general pattern but ends neither in \<open>.com\<close> nor in
  \<open>.in\<close> is invalid, with the message \<open>Email must end with .com or .in\<close>; hence
  every email that \<open>validateEmail\<close> accepts ends in \<open>.com\<close> or in \<open>.in\<close>.
\<close>

theorem validateEmail_suffix:
  "(full_match email_regex email \<and> \<not> endsWith email (js ''.com'') \<and> \<not> endsWith email (js ''.in'')
      \<longrightarrow> validateEmail email =
            \<lparr>valid = False, message = Some (js ''Email must end with .com or .in'')\<rparr>)
   \<and> (valid (validateEmail email) \<longrightarrow> endsWith email (js ''.com'') \<or> endsWith email (js ''.in''))"
proof -
  have nonempty: "full_match email_regex email \<Longrightarrow> email \<noteq> []"
    using email_regex_not_nullable by auto
  show ?thesis
    using nonempty by (auto simp: validateEmail_def invalid_def ok_def)
qed

theorem validateEmail_suffix_witness:
  "full_match email_regex (js ''a@b.org'') \<and> \<not> endsWith (js ''a@b.org'') (js ''.com'')
   \<and> \<not> endsWith (js ''a@b.org'') (js ''.in'')
   \<and> validateEmail (js ''a@b.org'') =
        \<lparr>valid = False, message = Some (js ''Email must end with .com or .in'')\<rparr>
   \<and> valid (validateEmail (js ''user@mail.in'')) \<and> endsWith (js ''user@mail.in'') (js ''.in'')"
proof -
  have m: "full_match email_regex (js ''a@b.org'')" by code_simp
  have c: "\<not> endsWith (js ''a@b.org'') (js ''.com'')" by code_simp
  have i: "\<not> endsWith (js ''a@b.org'') (js ''.in'')" by code_simp
  have v: "valid (validateEmail (js ''user@mail.in''))" by code_simp
  have e: "endsWith (js ''user@mail.in'') (js ''.in'')" by code_simp
  from validateEmail_suffix [of "js ''a@b.org''"] m c i
  have "validateEmail (js ''a@b.org'') =
          \<lparr>valid = False, message = Some (js ''Email must end with .com or .in'')\<rparr>"
    by blast
  moreover from validateEmail_suffix [of "js ''user@mail.in''"] v
  have "endsWith (js ''user@mail.in'') (js ''.com'') \<or> endsWith (js ''user@mail.in'') (js ''.in'')"
    by blast
  ultimately show ?thesis using m c i v e by blast
qed

section \<open>Properties of the gamification store\<close>

lemma fold_set_add_distinct:
  "distinct acc \<Longrightarrow> distinct (fold (\<lambda>x acc. set_add acc x) xs acc)"
  by (induction xs arbitrary: acc) (simp_all add: set_add_def)

lemma fold_set_add_set:
  "set (fold (\<lambda>x acc. set_add acc x) xs acc) = set acc \<union> set xs"
  by (induction xs arbitrary: acc) (auto simp: set_add_def)

lemma fold_set_add_absorb:
  "set xs \<subseteq> set acc \<Longrightarrow> fold (\<lambda>x acc. set_add acc x) xs acc = acc"
  by (induction xs arbitrary: acc) (simp_all add: set_add_def)

lemma fold_set_add_fresh:
  "distinct (acc @ ys) \<Longrightarrow> fold (\<lambda>x acc. set_add acc x) ys acc = acc @ ys"
proof (induction ys arbitrary: acc)
  case Nil
  then show ?case by simp
next
  case (Cons y ys)
  from Cons.prems have "y \<notin> set acc" and "distinct ((acc @ [y]) @ ys)" by auto
  with Cons.IH [of "acc @ [y]"] show ?case by (simp add: set_add_def)
qed

lemma array_from_set_distinct: "distinct (array_from_set xs)"
  by (simp add: array_from_set_def fold_set_add_distinct)

lemma array_from_set_set: "set (array_from_set xs) = set xs"
  by (simp add: array_from_set_def fold_set_add_set)

lemma array_from_set_fixed: "distinct xs \<Longrightarrow> array_from_set xs = xs"
  using fold_set_add_fresh [of "[]" xs] by (simp add: array_from_set_def)

lemma array_from_set_again:
  "array_from_set (array_from_set (bs @ inc) @ inc) = array_from_set (bs @ inc)"
proof -
  let ?m = "array_from_set (bs @ inc)"
  have "array_from_set (?m @ inc) = fold (\<lambda>x acc. set_add acc x) inc (array_from_set ?m)"
    by (simp add: array_from_set_def)
  also have "array_from_set ?m = ?m"
    by (rule array_from_set_fixed) (rule array_from_set_distinct)
  also have "fold (\<lambda>x acc. set_add acc x) inc ?m = ?m"
    by (rule fold_set_add_absorb) (simp add: array_from_set_set)
  finally show ?thesis .
qed

lemma dispatch_distinct:
  "distinct (badges state) \<Longrightarrow> distinct (badges (dispatch state action))"
  by (cases action) (simp_all add: addXp_def mergeBadges_def reset_def array_from_set_distinct)

lemma run_distinct:
  "distinct (badges state) \<Longrightarrow> distinct (badges (foldl dispatch state actions))"
  by (induction actions arbitrary: state) (simp_all add: dispatch_distinct)

text \<open>
  C10. The badge names of the store are pairwise distinct: this holds in the initial
  store, each of \<open>addXp\<close>, \<open>mergeBadges\<close> and \<open>reset\<close> preserves it, and so it holds
  after every sequence of actions. Merging the same badges a second time leaves the
  badges as the first merge left them, and \<open>addXp\<close> does not change the badges.
\<close>

theorem gamification_badges_distinct:
  "distinct (badges useGamificationStore)
   \<and> (distinct (badges state) \<longrightarrow>
        distinct (badges (addXp now amount state))
        \<and> distinct (badges (mergeBadges now incoming state))
        \<and> distinct (badges (reset state)))
   \<and> distinct (badges (foldl dispatch useGamificationStore actions))
   \<and> badges (mergeBadges now' incoming (mergeBadges now incoming state))
       = badges (mergeBadges now incoming state)
   \<and> badges (addXp now amount state) = badges state"
proof -
  have init: "distinct (badges useGamificationStore)"
    by (simp add: useGamificationStore_def)
  have step: "distinct (badges state) \<longrightarrow>
        distinct (badges (addXp now amount state))
        \<and> distinct (badges (mergeBadges now incoming state))
        \<and> distinct (badges (reset state))"
    by (simp add: addXp_def mergeBadges_def reset_def array_from_set_distinct)
  have run: "distinct (badges (foldl dispatch useGamificationStore actions))"
    using init by (rule run_distinct)
  have twice: "badges (mergeBadges now' incoming (mergeBadges now incoming state))
       = badges (mergeBadges now incoming state)"
    by (simp add: mergeBadges_def array_from_set_again)
  have xp_only: "badges (addXp now amount state) = badges state"
    by (simp add: addXp_def)
  from init step run twice xp_only show ?thesis by blast
qed

theorem gamification_badges_distinct_witness:
  "distinct (badges \<lparr>xp = 40, badges = [js ''Rookie'', js ''Streak''], lastUpdatedAt = None\<rparr>)
   \<and> distinct (badges (mergeBadges (js ''2025-01-01T00:00:00.000Z'')
        [js ''Streak'', js ''Ace'', js ''Ace'']
        \<lparr>xp = 40, badges = [js ''Rookie'', js ''Streak''], lastUpdatedAt = None\<rparr>))
   \<and> badges (mergeBadges (js ''2025-01-01T00:00:00.000Z'')
        [js ''Streak'', js ''Ace'', js ''Ace'']
        \<lparr>xp = 40, badges = [js ''Rookie'', js ''Streak''], lastUpdatedAt = None\<rparr>)
      = [js ''Rookie'', js ''Streak'', js ''Ace'']"
proof -
  let ?s = "\<lparr>xp = 40, badges = [js ''Rookie'', js ''Streak''], lastUpdatedAt = None\<rparr>"
  have d: "distinct (badges ?s)" by (simp add: js_def)
  have v: "badges (mergeBadges (js ''2025-01-01T00:00:00.000Z'')
        [js ''Streak'', js ''Ace'', js ''Ace''] ?s) = [js ''Rookie'', js ''Streak'', js ''Ace'']"
    by (simp add: mergeBadges_def array_from_set_def set_add_def js_def)
  from gamification_badges_distinct
         [of ?s "js ''2025-01-01T00:00:00.000Z''" 0 "[js ''Streak'', js ''Ace'', js ''Ace'']"] d
  have "distinct (badges (mergeBadges (js ''2025-01-01T00:00:00.000Z'')
        [js ''Streak'', js ''Ace'', js ''Ace''] ?s))"
    by blast
  with d v show ?thesis by blast
qed

section \<open>Properties of the API wrapper\<close>

text \<open>
  C1 (amended). When the backend call of a wrapped operation fails, the wrapper
  returns that operation's mock or default value, with a console warning, if mock
  data has been enabled with \<open>enableMockData True\<close>; otherwise, and so in the exported
  instance unless it is enabled, the wrapper rejects with the backend's error.
\<close>

theorem call_backend_failure:
  "call api m (Inl e) =
     (if useMockData api then (Inr (fallback m), [warning m]) else (Inl e, []))
   \<and> \<not> useMockData enhancedDomainApi
   \<and> useMockData (enableMockData v api) = v"
  by (simp add: call_def enhancedDomainApi_def enableMockData_def)

theorem call_backend_failure_witness:
  "call (enableMockData True enhancedDomainApi) getVideos
      (Inl (js ''Network Error'') :: jsstring + unit)
     = (Inr (Mock mockVideos), [''Using mock videos''])"
proof -
  have "call (enableMockData True enhancedDomainApi) getVideos
          (Inl (js ''Network Error'') :: jsstring + unit)
        = (if useMockData (enableMockData True enhancedDomainApi)
           then (Inr (fallback getVideos), [warning getVideos])
           else (Inl (js ''Network Error''), []))
      \<and> \<not> useMockData enhancedDomainApi
      \<and> useMockData (enableMockData True (enableMockData True enhancedDomainApi)) = True"
    by (rule call_backend_failure)
  then show ?thesis by (simp add: enableMockData_def)
qed

text \<open>
  C1 (as stated, refuted). In the exported instance, where mock data has not been
  enabled, a failing backend call of \<open>getUserProfile\<close> rejects with the error.
\<close>

theorem call_backend_failure_counterexample:
  "call enhancedDomainApi getUserProfile (Inl (js ''Network Error'') :: jsstring + unit)
     = (Inl (js ''Network Error''), [])"
  by (simp add: call_def enhancedDomainApi_def)

section \<open>Properties of the response interceptor\<close>

text \<open>
  C2. When the rejection handler receives an error whose response has status 401, the
  session is cleared (token and user are null, and where a window exists both storage
  entries are removed), the location is set to the login screen, and the handler
  still rejects with the same error.
\<close>

theorem response_rejected_401:
  assumes "response err = Some r" and "status r = 401"
  shows "fst (response_rejected err rt) = Inl err
    \<and> token (authStore (fst (snd (response_rejected err rt)))) = None
    \<and> user (authStore (fst (snd (response_rejected err rt)))) = None
    \<and> (case window rt of
          None \<Rightarrow> window (fst (snd (response_rejected err rt))) = None
        | Some w \<Rightarrow>
            (\<exists>w'. window (fst (snd (response_rejected err rt))) = Some w'
               \<and> localStorage w' (js ''gg_token'') = None
               \<and> localStorage w' (js ''gg_user'') = None
               \<and> (\<forall>k. k \<noteq> js ''gg_token'' \<and> k \<noteq> js ''gg_user''
                      \<longrightarrow> localStorage w' k = localStorage w k)
               \<and> location_href w' = js ''/login''))"
  using assms
  by (simp add: response_rejected_def logout_def removeItem_def Let_def split: option.splits)

theorem response_rejected_401_witness:
  "fst (response_rejected
          \<lparr>response = Some \<lparr>status = 401, data = js ''Unauthorized''\<rparr>\<rparr>
          \<lparr>authStore = \<lparr>token = Some (js ''abc''), user = None\<rparr>,
           window = Some \<lparr>localStorage = [js ''gg_token'' \<mapsto> js ''abc''],
                          location_href = js ''/dashboard''\<rparr>\<rparr>)
     = (Inl \<lparr>response = Some \<lparr>status = 401, data = js ''Unauthorized''\<rparr>\<rparr>
          :: jsstring RequestError + unit)
   \<and> fst (snd (response_rejected
          \<lparr>response = Some \<lparr>status = 401, data = js ''Unauthorized''\<rparr>\<rparr>
          \<lparr>authStore = \<lparr>token = Some (js ''abc''), user = None\<rparr>,
           window = Some \<lparr>localStorage = [js ''gg_token'' \<mapsto> js ''abc''],
                          location_href = js ''/dashboard''\<rparr>\<rparr>
          :: (jsstring RequestError + unit) \<times> Runtime \<times> (string \<times> int \<times> jsstring) list))
     = \<lparr>authStore = \<lparr>token = None, user = None\<rparr>,
        window = Some \<lparr>localStorage = Map.empty, location_href = js ''/login''\<rparr>\<rparr>"
proof -
  let ?err = "\<lparr>response = Some \<lparr>status = 401, data = js ''Unauthorized''\<rparr>\<rparr>"
  let ?rt = "\<lparr>authStore = \<lparr>token = Some (js ''abc''), user = None\<rparr>,
           window = Some \<lparr>localStorage = [js ''gg_token'' \<mapsto> js ''abc''],
                          location_href = js ''/dashboard''\<rparr>\<rparr>"
  have r: "response ?err = Some \<lparr>status = 401, data = js ''Unauthorized''\<rparr>" by simp
  have s: "status \<lparr>status = 401, data = js ''Unauthorized''\<rparr> = 401" by simp
  have "fst (response_rejected ?err ?rt) = (Inl ?err :: jsstring RequestError + unit)"
    using response_rejected_401 [OF r s, of ?rt] by blast
  moreover have "fst (snd (response_rejected ?err ?rt
            :: (jsstring RequestError + unit) \<times> Runtime \<times> (string \<times> int \<times> jsstring) list))
     = \<lparr>authStore = \<lparr>token = None, user = None\<rparr>,
        window = Some \<lparr>localStorage = Map.empty, location_href = js ''/login''\<rparr>\<rparr>"
    by (simp add: response_rejected_def logout_def removeItem_def Let_def js_def)
  ultimately show ?thesis by blast
qed

section \<open>Properties of the score computation\<close>

lemma round_half_even_cases:
  "round_half_even r = \<lfloor>r\<rfloor> \<and> r - of_int \<lfloor>r\<rfloor> \<le> 1 / 2
   \<or> round_half_even r = \<lfloor>r\<rfloor> + 1 \<and> 1 / 2 \<le> r - of_int \<lfloor>r\<rfloor>"
  unfolding round_half_even_def Let_def by (simp split: if_splits)

lemma round_half_even_near: "\<bar>of_int (round_half_even r) - r\<bar> \<le> 1 / 2"
proof -
  have b: "of_int \<lfloor>r\<rfloor> \<le> r" "r < of_int \<lfloor>r\<rfloor> + 1" by linarith+
  from round_half_even_cases [of r] show ?thesis
  proof
    assume "round_half_even r = \<lfloor>r\<rfloor> \<and> r - of_int \<lfloor>r\<rfloor> \<le> 1 / 2"
    with b show ?thesis by (simp add: abs_le_iff)
  next
    assume "round_half_even r = \<lfloor>r\<rfloor> + 1 \<and> 1 / 2 \<le> r - of_int \<lfloor>r\<rfloor>"
    with b show ?thesis by (simp add: abs_le_iff)
  qed
qed

lemma round_half_even_le:
  assumes "r \<le> of_int N" shows "round_half_even r \<le> N"
proof -
  from round_half_even_cases [of r] show ?thesis
  proof
    assume "round_half_even r = \<lfloor>r\<rfloor> \<and> r - of_int \<lfloor>r\<rfloor> \<le> 1 / 2"
    with assms show ?thesis by (simp add: floor_le_iff) 
  next
    assume a: "round_half_even r = \<lfloor>r\<rfloor> + 1 \<and> 1 / 2 \<le> r - of_int \<lfloor>r\<rfloor>"
    then have "of_int \<lfloor>r\<rfloor> < r" by linarith
    with assms have "(of_int \<lfloor>r\<rfloor> :: rat) < of_int N" by linarith
    then have "\<lfloor>r\<rfloor> < N" by simp
    with a show ?thesis by simp
  qed
qed

lemma round_half_even_ge:
  assumes "of_int N \<le> r" shows "N \<le> round_half_even r"
proof -
  from assms have "N \<le> \<lfloor>r\<rfloor>" by (simp add: le_floor_iff)
  with round_half_even_cases [of r] show ?thesis by auto
qed

lemma exponent_bounds:
  assumes "0 < x"
  shows "2 powi exponent x \<le> x" and "x < 2 powi (exponent x + 1)"
proof -
  obtain p q where pq: "quotient_of x = (p, q)" by (cases "quotient_of x")
  then have q: "0 < q" by (rule quotient_of_denom_pos)
  from pq have x: "x = of_int p / of_int q" by (rule quotient_of_div)
  with assms q have p: "0 < p" by (simp add: zero_less_divide_iff)
  define k where "k = bitlen p - bitlen q"
  have e: "exponent x = (if 2 powi k \<le> x then k else k - 1)"
    by (simp add: exponent_def pq k_def)
  have bp: "1 \<le> bitlen p" and bq: "1 \<le> bitlen q"
    using p q bitlen_eq_zero_iff [of p] bitlen_eq_zero_iff [of q] bitlen_nonneg [of p] bitlen_nonneg [of q]
    by linarith+
  have pw: "(2::rat) powi j = of_int (2 ^ nat j)" if "0 \<le> j" for j
    using that by (simp add: power_int_def)
  from bitlen_bounds [OF p] bp
  have p1: "(2::rat) powi (bitlen p - 1) \<le> of_int p" and p2: "of_int p < (2::rat) powi bitlen p"
    by (simp_all only: pw of_int_le_iff of_int_less_iff)
  from bitlen_bounds [OF q] bq
  have q1: "(2::rat) powi (bitlen q - 1) \<le> of_int q" and q2: "of_int q < (2::rat) powi bitlen q"
    by (simp_all only: pw of_int_le_iff of_int_less_iff)
  have "2 powi (k - 1) = (2::rat) powi (bitlen p - 1) / 2 powi bitlen q"
    by (simp add: k_def power_int_diff [symmetric] algebra_simps)
  also have "\<dots> < of_int p / of_int q"
    using p1 q2 q by (intro frac_less2) simp_all
  finally have lo: "2 powi (k - 1) < x" by (simp add: x)
  have "x = of_int p / of_int q" by (rule x)
  also have "\<dots> < 2 powi bitlen p / (2::rat) powi (bitlen q - 1)"
    using p2 q1 p by (intro frac_less) simp_all
  also have "\<dots> = 2 powi (k + 1)"
    by (simp add: k_def power_int_diff [symmetric] algebra_simps)
  finally have hi: "x < 2 powi (k + 1)" .
  show "2 powi exponent x \<le> x" using e lo by (auto simp: )
  show "x < 2 powi (exponent x + 1)" using e hi by (auto simp: not_le)
qed


lemma to_double_pos:
  assumes "0 < x"
  shows "to_double x = of_int (round_half_even (x / 2 powi (exponent x - 52))) * 2 powi (exponent x - 52)"
  using assms by (simp add: to_double_def Let_def)

lemma significand_bounds:
  assumes "0 < x"
  shows "2 ^ 52 \<le> x / 2 powi (exponent x - 52)" and "x / 2 powi (exponent x - 52) < 2 ^ 53"
proof -
  have u: "(0::rat) < 2 powi (exponent x - 52)" by simp
  have "(2::rat) ^ 52 * 2 powi (exponent x - 52) = 2 powi exponent x"
    by (simp add: power_int_diff)
  with exponent_bounds(1) [OF assms] show "2 ^ 52 \<le> x / 2 powi (exponent x - 52)"
    using u by (simp add: pos_le_divide_eq)
  have "(2::rat) ^ 53 * 2 powi (exponent x - 52) = 2 powi (exponent x + 1)"
    by (simp add: power_int_diff power_int_add)
  with exponent_bounds(2) [OF assms] show "x / 2 powi (exponent x - 52) < 2 ^ 53"
    using u by (simp add: pos_divide_less_eq)
qed

lemma to_double_error:
  assumes "0 < x"
  shows "\<bar>to_double x - x\<bar> \<le> x / 2 ^ 53"
proof -
  define u where "u = (2::rat) powi (exponent x - 52)"
  have u: "0 < u" by (simp add: u_def)
  define m where "m = x / u"
  have x: "x = m * u" using u by (simp add: m_def)
  have td: "to_double x = of_int (round_half_even m) * u"
    by (simp add: to_double_pos [OF assms] u_def m_def)
  have "to_double x - x = of_int (round_half_even m) * u - m * u"
    by (simp only: td x [symmetric])
  also have "\<dots> = (of_int (round_half_even m) - m) * u"
    by (simp add: left_diff_distrib)
  finally have "\<bar>to_double x - x\<bar> = \<bar>of_int (round_half_even m) - m\<bar> * u"
    using u by (simp add: abs_mult)
  also have "\<dots> \<le> (1 / 2) * u"
    using round_half_even_near [of m] u by (intro mult_right_mono) simp_all
  also have "\<dots> \<le> (m / 2 ^ 53) * u"
    using significand_bounds(1) [OF assms] u
    by (intro mult_right_mono) (simp_all add: m_def u_def pos_le_divide_eq)
  finally show ?thesis by (simp add: x)
qed

lemma to_double_positive:
  assumes "0 < x" shows "0 < to_double x"
proof -
  from significand_bounds(1) [OF assms]
  have "(of_int (2 ^ 52) :: rat) \<le> x / 2 powi (exponent x - 52)" by simp
  then have "2 ^ 52 \<le> round_half_even (x / 2 powi (exponent x - 52))"
    by (rule round_half_even_ge)
  then have "0 < round_half_even (x / 2 powi (exponent x - 52))" by simp
  then show ?thesis by (simp add: to_double_pos [OF assms])
qed

text \<open>Rounding does not cross a representable number.\<close>

lemma to_double_le:
  assumes x: "0 < x" and xB: "x \<le> B"
    and B: "B = of_int M * 2 powi (eB - 52)" and lo: "2 powi eB \<le> B" and hi: "B < 2 powi (eB + 1)"
  shows "to_double x \<le> B"
proof -
  define e where "e = exponent x"
  define u where "u = (2::rat) powi (e - 52)"
  have u: "0 < u" by (simp add: u_def)
  have td: "to_double x = of_int (round_half_even (x / u)) * u"
    by (simp add: to_double_pos [OF x] u_def e_def)
  have "(2::rat) powi e \<le> x" using exponent_bounds(1) [OF x] by (simp add: e_def)
  also note xB also note hi
  finally have lt: "(2::rat) powi e < 2 powi (eB + 1)" .
  have "e < eB + 1"
  proof (rule ccontr)
    assume "\<not> e < eB + 1"
    then have "(2::rat) powi (eB + 1) \<le> 2 powi e" by (intro power_int_increasing) simp_all
    with lt show False by simp
  qed
  then consider "e = eB" | "e < eB" by linarith
  then show ?thesis
  proof cases
    case 1
    have "x / u \<le> B / u" using xB u by (simp add: divide_right_mono)
    also have "B / u = of_int M" using u by (simp add: B u_def 1)
    finally have "round_half_even (x / u) \<le> M" by (rule round_half_even_le)
    then have "of_int (round_half_even (x / u)) * u \<le> of_int M * u"
      using u by (intro mult_right_mono) simp_all
    also have "of_int M * u = B" by (simp add: B u_def 1)
    finally show ?thesis by (simp only: td)
  next
    case 2
    have "x / u \<le> of_int (2 ^ 53)"
      using significand_bounds(2) [OF x] by (simp add: u_def e_def)
    then have "round_half_even (x / u) \<le> 2 ^ 53" by (rule round_half_even_le)
    then have "(of_int (round_half_even (x / u)) :: rat) \<le> 2 ^ 53"
      by (metis of_int_le_iff of_int_numeral of_int_power)
    then have "of_int (round_half_even (x / u)) * u \<le> 2 ^ 53 * u"
      using u by (intro mult_right_mono) simp_all
    also have "2 ^ 53 * u = 2 powi (e + 1)" by (simp add: u_def power_int_diff power_int_add)
    also have "\<dots> \<le> 2 powi eB" using 2 by (intro power_int_increasing) simp_all
    also note lo
    finally show ?thesis by (simp only: td)
  qed
qed

lemma to_double_le_1: "0 < x \<Longrightarrow> x \<le> 1 \<Longrightarrow> to_double x \<le> 1"
  by (rule to_double_le [where M = "2 ^ 52" and eB = 0]) (simp_all add: power_int_minus field_simps)

lemma to_double_le_100: "0 < x \<Longrightarrow> x \<le> 100 \<Longrightarrow> to_double x \<le> 100"
  by (rule to_double_le [where M = "100 * 2 ^ 46" and eB = 6]) (simp_all add: power_int_minus field_simps)


lemma to_double_0: "to_double 0 = 0"
  by (simp add: to_double_def)

lemma quiz_score_finite:
  assumes "0 < n"
  shows "quiz_score c n =
           Finite (of_int \<lfloor>to_double (to_double (of_nat c / of_nat n) * 100) + 1 / 2\<rfloor>)"
  using assms by (simp add: quiz_score_def js_divide_def)

lemma quiz_score_0:
  assumes "0 < n" shows "quiz_score 0 n = Finite 0"
proof -
  have "\<lfloor>1 / 2 :: rat\<rfloor> = 0" by (simp add: floor_eq_iff)
  with assms show ?thesis by (simp add: quiz_score_finite to_double_0)
qed

text \<open>The two roundings move the exact percentage by less than \<open>200 / 2 ^ 53\<close>.\<close>

lemma percentage_error:
  assumes c: "0 < c" and cn: "c \<le> n"
  defines "x \<equiv> (of_nat c / of_nat n :: rat)"
  defines "d \<equiv> to_double (to_double x * 100)"
  shows "0 < d" and "d \<le> 100" and "\<bar>d - 100 * x\<bar> \<le> 200 / 2 ^ 53"
proof -
  from c cn have n: "0 < n" by simp
  have x0: "0 < x" using c n by (simp add: x_def)
  have x1: "x \<le> 1" using cn n by (simp add: x_def)
  define d1 where "d1 = to_double x"
  have d1_pos: "0 < d1" unfolding d1_def using x0 by (rule to_double_positive)
  have d1_le: "d1 \<le> 1" unfolding d1_def using x0 x1 by (rule to_double_le_1)
  have e1: "\<bar>d1 - x\<bar> \<le> 1 / 2 ^ 53"
  proof -
    have "\<bar>d1 - x\<bar> \<le> x / 2 ^ 53" unfolding d1_def using x0 by (rule to_double_error)
    also have "\<dots> \<le> 1 / 2 ^ 53" using x1 by (simp add: divide_right_mono)
    finally show ?thesis .
  qed
  define y where "y = d1 * 100"
  have y0: "0 < y" using d1_pos by (simp add: y_def)
  have y1: "y \<le> 100" using d1_le by (simp add: y_def)
  have d: "d = to_double y" by (simp add: d_def y_def d1_def)
  show "0 < d" unfolding d using y0 by (rule to_double_positive)
  show "d \<le> 100" unfolding d using y0 y1 by (rule to_double_le_100)
  have e2: "\<bar>d - y\<bar> \<le> 100 / 2 ^ 53"
  proof -
    have "\<bar>d - y\<bar> \<le> y / 2 ^ 53" unfolding d using y0 by (rule to_double_error)
    also have "\<dots> \<le> 100 / 2 ^ 53" using y1 by (simp add: divide_right_mono)
    finally show ?thesis .
  qed
  have "\<bar>y - 100 * x\<bar> = 100 * \<bar>d1 - x\<bar>" by (simp add: y_def abs_if)
  with e1 have e3: "\<bar>y - 100 * x\<bar> \<le> 100 / 2 ^ 53" by simp
  have "\<bar>d - 100 * x\<bar> \<le> \<bar>d - y\<bar> + \<bar>y - 100 * x\<bar>" by simp
  with e2 e3 show "\<bar>d - 100 * x\<bar> \<le> 200 / 2 ^ 53" by simp
qed

lemma quiz_score_bounds:
  assumes "0 < n" and "c \<le> n"
  shows "\<exists>k. quiz_score c n = Finite (of_int k) \<and> 0 \<le> k \<and> k \<le> 100"
proof (cases "c = 0")
  case True
  with assms(1) have "quiz_score c n = Finite (of_int 0)" by (simp add: quiz_score_0)
  then show ?thesis by (intro exI [of _ 0]) simp
next
  case False
  then have c: "0 < c" by simp
  define d where "d = to_double (to_double (of_nat c / of_nat n) * 100)"
  from percentage_error(1,2) [OF c assms(2)] have d: "0 < d" "d \<le> 100" by (simp_all add: d_def)
  have "0 \<le> \<lfloor>d + 1 / 2\<rfloor>" using d(1) by (simp add: le_floor_iff)
  moreover have "\<lfloor>d + 1 / 2\<rfloor> \<le> 100" using d(2) by (simp add: floor_le_iff)
  moreover have "quiz_score c n = Finite (of_int \<lfloor>d + 1 / 2\<rfloor>)"
    using assms(1) by (simp add: quiz_score_finite d_def)
  ultimately show ?thesis by blast
qed

text \<open>
  The exact percentage, rounded half up, is \<open>(200 * c + n) div (2 * n)\<close>; it is a tie
  when \<open>2 * n\<close> divides \<open>200 * c + n\<close>.
\<close>

lemma quiz_score_accuracy:
  assumes n: "0 < n" and cn: "c \<le> n" and small: "n < 2 ^ 32"
  defines "R \<equiv> (200 * int c + int n) div (2 * int n)"
  shows "quiz_score c n = Finite (of_int R) \<or> quiz_score c n = Finite (of_int (R - 1))"
    and "(200 * int c + int n) mod (2 * int n) \<noteq> 0 \<Longrightarrow> quiz_score c n = Finite (of_int R)"
proof -
  define N where "N = 200 * int c + int n"
  define D where "D = 2 * int n"
  have D: "0 < D" using n by (simp add: D_def)
  have R: "R = N div D" by (simp add: R_def N_def D_def)
  define t where "t = (of_int N / of_int D :: rat)"
  define x where "x = (of_nat c / of_nat n :: rat)"
  have t: "t = 100 * x + 1 / 2" using n by (simp add: t_def x_def N_def D_def field_simps)
  have ND: "N = R * D + N mod D" by (simp add: R)
  have tR: "t = of_int R + of_int (N mod D) / of_int D"
  proof -
    have "of_int N = (of_int R * of_int D + of_int (N mod D) :: rat)"
      by (metis ND of_int_add of_int_mult)
    then show ?thesis using D by (simp add: t_def field_simps)
  qed
  define eps where "eps = (200 / 2 ^ 53 :: rat)"
  have Dinv: "eps < 1 / (of_int D :: rat)"
  proof -
    have "int n < 2 ^ 32" using small by (metis of_nat_less_iff of_nat_numeral of_nat_power)
    then have "D < 2 ^ 33" by (simp add: D_def)
    then have "(of_int D :: rat) < 2 ^ 33" by (metis of_int_less_iff of_int_numeral of_int_power)
    then have "1 / (2 ^ 33 :: rat) < 1 / of_int D" using D by (intro divide_strict_left_mono) simp_all
    moreover have "eps < 1 / 2 ^ 33" by (simp add: eps_def)
    ultimately show ?thesis by linarith
  qed
  define d where "d = to_double (to_double x * 100)"
  have score: "quiz_score c n = Finite (of_int \<lfloor>d + 1 / 2\<rfloor>)"
    using n by (simp add: quiz_score_finite d_def x_def)
  have err: "\<bar>d + 1 / 2 - t\<bar> \<le> eps"
  proof (cases "c = 0")
    case True
    then show ?thesis by (simp add: d_def x_def t to_double_0 eps_def)
  next
    case False
    then have "0 < c" by simp
    from percentage_error(3) [OF this cn]
    have "\<bar>d - 100 * x\<bar> \<le> eps" by (simp only: d_def x_def eps_def)
    then show ?thesis by (simp add: t)
  qed
  have m0: "0 \<le> N mod D" and m1: "N mod D < D" using D by simp_all
  have exact: "\<lfloor>d + 1 / 2\<rfloor> = R" if "N mod D \<noteq> 0"
  proof -
    from that m0 have "1 \<le> N mod D" by linarith
    then have "(1 :: rat) \<le> of_int (N mod D)" by (metis of_int_1 of_int_le_iff)
    then have lo: "1 / of_int D \<le> (of_int (N mod D) / of_int D :: rat)"
      using D by (simp add: divide_right_mono)
    from m1 have "N mod D \<le> D - 1" by linarith
    then have "(of_int (N mod D) :: rat) \<le> of_int D - 1" by (metis of_int_1 of_int_diff of_int_le_iff)
    then have "(of_int (N mod D) / of_int D :: rat) \<le> (of_int D - 1) / of_int D"
      using D by (simp add: divide_right_mono)
    also have "\<dots> = 1 - 1 / of_int D" using D by (simp add: field_simps)
    finally have hi: "(of_int (N mod D) / of_int D :: rat) \<le> 1 - 1 / of_int D" .
    have "of_int R \<le> d + 1 / 2" using err tR lo Dinv by linarith
    moreover have "d + 1 / 2 < of_int R + 1" using err tR hi Dinv by linarith
    ultimately show ?thesis by (simp add: floor_eq_iff)
  qed
  show "(200 * int c + int n) mod (2 * int n) \<noteq> 0 \<Longrightarrow> quiz_score c n = Finite (of_int R)"
    using exact by (simp add: score N_def D_def)
  show "quiz_score c n = Finite (of_int R) \<or> quiz_score c n = Finite (of_int (R - 1))"
  proof (cases "N mod D = 0")
    case False
    with exact show ?thesis by (simp add: score)
  next
    case True
    then have tR': "t = of_int R" by (simp add: tR)
    have small': "eps < 1" by (simp add: eps_def)
    have "of_int (R - 1) \<le> d + 1 / 2" using err tR' small' by simp
    then have lo: "R - 1 \<le> \<lfloor>d + 1 / 2\<rfloor>" by (simp only: le_floor_iff)
    have "d + 1 / 2 < of_int (R + 1)" using err tR' small' by simp
    then have hi: "\<lfloor>d + 1 / 2\<rfloor> < R + 1" by (simp only: floor_less_iff)
    from lo hi have "\<lfloor>d + 1 / 2\<rfloor> = R \<or> \<lfloor>d + 1 / 2\<rfloor> = R - 1" by linarith
    then show ?thesis by (auto simp: score)
  qed
qed

section \<open>Properties of the quiz page\<close>

lemma tally_reachable:
  "reachable st \<Longrightarrow> correctCount st = length (filter isCorrect (responses st))"
proof (induction rule: reachable.induct)
  case (mounted domainLabel)
  show ?case by (simp add: initial_quiz_def)
next
  case (load snap st)
  then show ?case by (simp add: loadQuiz_def)
next
  case (load_settled st outcome)
  then show ?case by (simp add: loadQuiz_settled_def Let_def split: sum.splits)
next
  case (select snap st i)
  then show ?case by (simp add: handleSelectOption_def)
next
  case (lock snap st)
  then show ?case
    by (simp add: handleSubmitAnswer_def Let_def split: option.splits)
next
  case (advance snap st)
  then show ?case
    by (simp add: handleNextQuestion_def handleFinishQuiz_def next_question_def)
next
  case (finish_settled snap st p outcome)
  then show ?case by (simp add: handleFinishQuiz_settled_def split: sum.splits)
next
  case (expired snap st)
  then show ?case by (simp add: handleTimeExpired_def split: option.splits)
next
  case (callback snap st)
  then show ?case by (simp add: expiry_callback_def handleFinishQuiz_def next_question_def)
next
  case (rendered st)
  then show ?case by (simp add: countdown_effect_def split: option.splits)
next
  case (tick snap st)
  then show ?case
    by (simp add: countdown_tick_def handleTimeExpired_def split: option.splits)
qed simp_all

lemma correctCount_le_responses:
  "reachable st \<Longrightarrow> correctCount st \<le> length (responses st)"
  by (simp add: tally_reachable)

lemma reachable_start_quiz: "reachable (start_quiz qs t)"
  unfolding start_quiz_def Let_def
  by (intro reachable.rendered reachable.load_settled reachable.load reachable.mounted)

lemma reachable_play: "reachable st \<Longrightarrow> reachable (play sels st)"
proof (induction sels arbitrary: st)
  case Nil
  then show ?case by simp
next
  case (Cons sel sels)
  let ?s1 = "handleSelectOption st sel st"
  let ?s2 = "countdown_effect (fst (handleSubmitAnswer ?s1 ?s1))"
  have s1: "reachable ?s1" using Cons.prems by (intro reachable.select)
  have s2: "reachable ?s2" by (intro reachable.rendered reachable.lock s1)
  have "reachable (countdown_effect (fst (handleNextQuestion ?s2 ?s2)))"
    by (intro reachable.rendered reachable.advance s2)
  with s2 show ?case by (simp add: Let_def Cons.IH)
qed

text \<open>What the expiry of the countdown records, and what the scheduled callback does.\<close>

lemma handleTimeExpired_records:
  assumes "currentQuestion snap = Some q" and "\<not> isAnswerSubmitted snap" and "\<not> answered snap q"
  shows "responses (fst (handleTimeExpired snap st)) =
           responses st @
             [\<lparr>r_id = q_id q, selected = - 1, correctIndex = answer q,
               correctLabel = answer_label q, r_explanation = explanation q, r_skill = skill q,
               isCorrect = False, timeTaken = totalWindow snap, timedOut = True\<rparr>]"
    and "currentStreak (fst (handleTimeExpired snap st)) = 0"
    and "isAnswerSubmitted (fst (handleTimeExpired snap st))"
    and "selectedOption (fst (handleTimeExpired snap st)) = Some (- 1)"
    and "snd (handleTimeExpired snap st) = [ToastLater (js ''Time's up!''), AdvanceLater snap]"
  using assms by (simp_all add: handleTimeExpired_def)

lemma expiry_callback_advances:
  assumes "\<not> on_last_question snap"
  shows "expiry_callback snap st = (next_question snap st, [])"
  using assms by (simp add: expiry_callback_def)

text \<open>
  On the last question the callback runs \<open>handleFinishQuiz\<close> with the responses of
  the render before the expiry, which lack the response just recorded: whenever
  those are fewer than the questions, nothing is submitted.
\<close>

lemma expiry_callback_last_refuses:
  assumes "on_last_question snap" and "length (responses snap) \<noteq> length (questions snap)"
  shows "expiry_callback snap st = (st, [Toast (js ''Answer every question to finish.'')])"
  using assms by (simp add: expiry_callback_def handleFinishQuiz_def)

lemma unanswered_question_leaves_gap:
  assumes ids: "distinct (map q_id (questions snap))"
    and once: "distinct (map r_id (responses snap))"
    and known: "set (map r_id (responses snap)) \<subseteq> set (map q_id (questions snap))"
    and cur: "currentQuestion snap = Some q" and unanswered: "\<not> answered snap q"
  shows "length (responses snap) < length (questions snap)"
proof -
  from cur have q: "q_id q \<in> set (map q_id (questions snap))"
    by (auto simp: currentQuestion_def split: if_splits)
  with known unanswered have "set (map r_id (responses snap)) \<subset> set (map q_id (questions snap))"
    by (auto simp: answered_def)
  then have "card (set (map r_id (responses snap))) < card (set (map q_id (questions snap)))"
    by (intro psubset_card_mono) simp_all
  moreover have "card (set (map r_id (responses snap))) = length (responses snap)"
    using once by (metis distinct_card length_map)
  moreover have "card (set (map q_id (questions snap))) = length (questions snap)"
    using ids by (metis distinct_card length_map)
  ultimately show ?thesis by simp
qed

text \<open>
  C3 (the code departs from it). A quiz of one question with two seconds per
  question, nothing selected: the second tick of the countdown records the timed-out
  response, and the callback scheduled for 1200 ms later, although the question was the
  last one, submits nothing: it shows the error \<open>Answer every question to finish.\<close>
  and leaves the state as it was. The button handler of the render after the expiry,
  run on the same state, does submit.
\<close>

theorem expiry_on_last_question_not_submitted:
  "(let s0 = start_quiz [sample_question 0] 2;
        (s1, e1) = countdown_tick s0 s0;
        (s2, e2) = countdown_tick s1 s1;
        (s3, e3) = expiry_callback s1 s2
    in questionTimeLeft s1 = 1 \<and> e1 = []
       \<and> e2 = [ToastLater (js ''Time's up!''), AdvanceLater s1]
       \<and> map selected (responses s2) = [- 1]
       \<and> map isCorrect (responses s2) = [False]
       \<and> map timeTaken (responses s2) = [2]
       \<and> map timedOut (responses s2) = [True]
       \<and> currentStreak s2 = 0
       \<and> on_last_question s1
       \<and> e3 = [Toast (js ''Answer every question to finish.'')]
       \<and> requested_scores e3 = []
       \<and> s3 = s2 \<and> \<not> isSubmittingResults s3 \<and> summary s3 = None
       \<and> requested_scores (snd (handleNextQuestion s3 s3)) = [Finite 0])"
  by code_simp

text \<open>
  \<open>handleFinishQuiz\<close> is called from \<open>handleNextQuestion\<close> and from the expiry callback,
  in both only on the last question, so with at least one question.
\<close>

lemma on_last_question_nonempty: "on_last_question snap \<Longrightarrow> questions snap \<noteq> []"
  by (auto simp: on_last_question_def)

lemma requests_only_on_last_question:
  "requested_scores (snd (handleNextQuestion snap st)) \<noteq> [] \<Longrightarrow> on_last_question snap"
  "requested_scores (snd (expiry_callback snap st)) \<noteq> [] \<Longrightarrow> on_last_question snap"
  by (auto simp: handleNextQuestion_def expiry_callback_def split: if_splits)

text \<open>
  The test of \<open>handleFinishQuiz\<close> compares two counts; it does not ask whether each
  question has a response. When two loads overlap, the response to a question of the
  first reply is still recorded when the second reply replaces the questions: the
  counts agree and a request is issued, although the question on display has no
  response.
\<close>

lemma reachable_overlapping_loads: "reachable overlapping_loads"
  unfolding overlapping_loads_def Let_def
  by (intro reachable.rendered reachable.load_settled reachable.lock reachable.select
      reachable.load reachable.setMode reachable.mounted)

lemma overlapping_loads_submit_unanswered:
  "(let s = overlapping_loads
    in (currentQuestion s = Some (sample_question 1), answered s (sample_question 1),
        map r_id (responses s) = [q_id (sample_question 0)],
        requested_scores (snd (handleNextQuestion s s))))
   = (True, False, True, [Finite 100])"
  by code_simp

lemma tie_quiz_run:
  "(let s = tie_quiz
    in (correctCount s, length (questions s), length (responses s), isAnswerSubmitted s,
        on_last_question s, requested_scores (snd (handleNextQuestion s s))))
   = (23, 40, 40, True, True, [Finite 57])"
  by code_simp

text \<open>
  C9 (amended). \<open>handleFinishQuiz\<close> refuses to submit (an error toast, no request, the
  state unchanged) whenever the number of recorded responses differs from the number
  of questions; nothing more than the two counts is compared. When it does submit, it
  issues one request whose score is
  \<^verbatim>\<open>Math.round((correctCount / n) * 100)\<close> in double arithmetic. In every reachable
  state with at least one question this is a whole number from 0 to 100; with fewer
  than \<open>2 ^ 32\<close> questions it is the percentage \<open>100 * correctCount / n\<close> rounded to the
  nearest integer, except that a percentage exactly halfway between two integers
  gives the upper of the two or the one below it.
\<close>

theorem handleFinishQuiz_count_and_score:
  "(length (responses snap) \<noteq> length (questions snap) \<longrightarrow>
      handleFinishQuiz snap st = (st, [Toast (js ''Answer every question to finish.'')]))
   \<and> (length (responses snap) = length (questions snap) \<longrightarrow>
        fst (handleFinishQuiz snap st) = st\<lparr>isSubmittingResults := True\<rparr>
        \<and> (\<exists>p. snd (handleFinishQuiz snap st) = [Request p]
                \<and> p_score p = quiz_score (correctCount snap) (length (questions snap))
                \<and> p_total_questions p = length (questions snap))
        \<and> (reachable snap \<and> questions snap \<noteq> [] \<longrightarrow>
             (\<exists>k. quiz_score (correctCount snap) (length (questions snap)) = Finite (of_int k)
                  \<and> 0 \<le> k \<and> k \<le> 100))
        \<and> (reachable snap \<and> questions snap \<noteq> [] \<and> length (questions snap) < 2 ^ 32 \<longrightarrow>
             (quiz_score (correctCount snap) (length (questions snap))
                = Finite (of_int ((200 * int (correctCount snap) + int (length (questions snap)))
                                   div (2 * int (length (questions snap)))))
              \<or> quiz_score (correctCount snap) (length (questions snap))
                = Finite (of_int ((200 * int (correctCount snap) + int (length (questions snap)))
                                   div (2 * int (length (questions snap))) - 1)))
             \<and> ((200 * int (correctCount snap) + int (length (questions snap)))
                   mod (2 * int (length (questions snap))) \<noteq> 0 \<longrightarrow>
                 quiz_score (correctCount snap) (length (questions snap))
                   = Finite (of_int ((200 * int (correctCount snap) + int (length (questions snap)))
                                      div (2 * int (length (questions snap))))))))"
proof -
  have refuse: "length (responses snap) \<noteq> length (questions snap) \<longrightarrow>
      handleFinishQuiz snap st = (st, [Toast (js ''Answer every question to finish.'')])"
    by (simp add: handleFinishQuiz_def)
  have submit: "length (responses snap) = length (questions snap) \<longrightarrow>
        fst (handleFinishQuiz snap st) = st\<lparr>isSubmittingResults := True\<rparr>
        \<and> (\<exists>p. snd (handleFinishQuiz snap st) = [Request p]
                \<and> p_score p = quiz_score (correctCount snap) (length (questions snap))
                \<and> p_total_questions p = length (questions snap))"
    by (simp add: handleFinishQuiz_def)
  have le: "correctCount snap \<le> length (questions snap)"
    if "length (responses snap) = length (questions snap)" and "reachable snap"
    using that correctCount_le_responses [of snap] by simp
  have pos: "0 < length (questions snap)" if "questions snap \<noteq> []"
    using that by simp
  show ?thesis
    using refuse submit
      quiz_score_bounds [OF pos le]
      quiz_score_accuracy(1) [OF pos le]
      quiz_score_accuracy(2) [OF pos le]
    by blast
qed

theorem handleFinishQuiz_count_and_score_witness:
  "handleFinishQuiz (start_quiz [sample_question 0] 60) (start_quiz [sample_question 0] 60)
     = (start_quiz [sample_question 0] 60, [Toast (js ''Answer every question to finish.'')])
   \<and> reachable (play [0, 1] (start_quiz [sample_question 0, sample_question 1] 60))
   \<and> length (responses (play [0, 1] (start_quiz [sample_question 0, sample_question 1] 60)))
       = length (questions (play [0, 1] (start_quiz [sample_question 0, sample_question 1] 60)))
   \<and> quiz_score (correctCount (play [0, 1] (start_quiz [sample_question 0, sample_question 1] 60)))
        (length (questions (play [0, 1] (start_quiz [sample_question 0, sample_question 1] 60))))
       = Finite 50"
proof -
  let ?a = "start_quiz [sample_question 0] 60"
  let ?b = "play [0, 1] (start_quiz [sample_question 0, sample_question 1] 60)"
  have a: "length (responses ?a) \<noteq> length (questions ?a)" by code_simp
  have r: "reachable ?b" by (intro reachable_play reachable_start_quiz)
  have c: "correctCount ?b = 1" by code_simp
  have n: "length (questions ?b) = 2" by code_simp
  have len: "length (responses ?b) = length (questions ?b)" by code_simp
  have q: "questions ?b \<noteq> []" by code_simp
  have small: "length (questions ?b) < 2 ^ 32" unfolding n by simp
  have tie: "(200 * int (correctCount ?b) + int (length (questions ?b)))
               mod (2 * int (length (questions ?b))) \<noteq> 0"
    unfolding c n by simp
  from handleFinishQuiz_count_and_score [of ?a ?a] a
  have 1: "handleFinishQuiz ?a ?a = (?a, [Toast (js ''Answer every question to finish.'')])"
    by blast
  from handleFinishQuiz_count_and_score [of ?b ?b] len r q small tie
  have "quiz_score (correctCount ?b) (length (questions ?b))
          = Finite (of_int ((200 * int (correctCount ?b) + int (length (questions ?b)))
                             div (2 * int (length (questions ?b)))))"
    by blast
  then have 2: "quiz_score (correctCount ?b) (length (questions ?b)) = Finite 50"
    unfolding c n by simp
  from 1 r len 2 show ?thesis by blast
qed

text \<open>
  C9 (as stated, refuted). After 40 questions of which 23 were answered correctly,
  the submitted score is 57, while \<open>100 * 23 / 40 = 57.5\<close> rounds to 58: the product
  \<^verbatim>\<open>(23 / 40) * 100\<close> is the double just below 57.5.
\<close>

theorem handleFinishQuiz_score_counterexample:
  "correctCount tie_quiz = 23 \<and> length (questions tie_quiz) = 40
   \<and> length (responses tie_quiz) = 40
   \<and> requested_scores (snd (handleNextQuestion tie_quiz tie_quiz)) = [Finite 57]
   \<and> round (100 * 23 / 40 :: rat) = 58"
proof -
  have "round (100 * 23 / 40 :: rat) = 58" by code_simp
  with tie_quiz_run show ?thesis by (simp add: Let_def)
qed

section \<open>Properties of the university search hook\<close>

lemma all_aborted_abort_current: "all_aborted st \<Longrightarrow> all_aborted (abort_current st)"
  by (auto simp: all_aborted_def abort_current_def list_all_iff split: option.splits)

lemma abort_current_aborts:
  assumes "list_all (\<lambda>(q, c, due). c \<in> set (aborted st) \<or> abortControllerRef st = Some c)
             (in_flight st)"
  shows "all_aborted (abort_current st)"
  using assms
  by (auto simp: all_aborted_def abort_current_def list_all_iff split: option.splits)

lemma abort_current_fields [simp]:
  "in_flight (abort_current st) = in_flight st"
  "abortControllerRef (abort_current st) = abortControllerRef st"
  "search_error (abort_current st) = search_error st"
  "debounce_timer (abort_current st) = debounce_timer st"
  "has_cleanup (abort_current st) = has_cleanup st"
  "query (abort_current st) = query st"
  "debounceMs (abort_current st) = debounceMs st"
  "clock (abort_current st) = clock st"
  "universities (abort_current st) = universities st"
  "loading (abort_current st) = loading st"
  "apiDisabled (abort_current st) = apiDisabled st"
  by (simp_all add: abort_current_def split: option.splits)

lemma all_aborted_weaken:
  "all_aborted st \<Longrightarrow>
   list_all (\<lambda>(q, c, due). c \<in> set (aborted st) \<or> abortControllerRef st = Some c) (in_flight st)"
  by (auto simp: all_aborted_def list_all_iff)

text \<open>After the clean-up, or where no clean-up was due, nothing is left running.\<close>

lemma quiet_before_effect:
  assumes "hook_inv st"
  defines "st1 \<equiv> (if has_cleanup st then cleanup st else st)"
  shows "all_aborted st1" and "debounce_timer st1 = None" and "search_error st1 = None"
proof -
  show "all_aborted st1"
  proof (cases "has_cleanup st")
    case True
    from assms(1) have "all_aborted (abort_current (st\<lparr>debounce_timer := None\<rparr>))"
      by (intro abort_current_aborts) (simp add: hook_inv_def)
    with True show ?thesis by (simp add: st1_def cleanup_def)
  next
    case False
    with assms(1) show ?thesis by (simp add: st1_def hook_inv_def)
  qed
  show "debounce_timer st1 = None"
    using assms(1) by (simp add: st1_def cleanup_def hook_inv_def)
  show "search_error st1 = None"
    using assms(1) by (simp add: st1_def cleanup_def hook_inv_def)
qed

lemma hook_inv_effect_body:
  assumes "all_aborted st" and "debounce_timer st = None" and "search_error st = None"
  shows "hook_inv (effect_body st)" and "all_aborted (effect_body st)"
proof -
  have a: "all_aborted (abort_current st)" using assms(1) by (rule all_aborted_abort_current)
  then have a': "all_aborted ((abort_current st)
      \<lparr>debounce_timer := Some (query st, clock st + debounceMs st), has_cleanup := True\<rparr>)"
    by (simp add: all_aborted_def)
  have b: "all_aborted (st\<lparr>universities := [], has_cleanup := False\<rparr>)"
    using assms(1) by (simp add: all_aborted_def)
  show "all_aborted (effect_body st)"
    using a' b by (simp add: effect_body_def)
  show "hook_inv (effect_body st)"
  proof (cases "query st = [] \<or> length (query st) < 2")
    case True
    then have "effect_body st = st\<lparr>universities := [], has_cleanup := False\<rparr>"
      by (simp add: effect_body_def)
    with b all_aborted_weaken [OF b] assms(2,3) show ?thesis
      by (simp add: hook_inv_def)
  next
    case False
    then have "effect_body st = (abort_current st)
      \<lparr>debounce_timer := Some (query st, clock st + debounceMs st), has_cleanup := True\<rparr>"
      by (simp add: effect_body_def)
    with a' all_aborted_weaken [OF a'] assms(3) False show ?thesis
      by (simp add: hook_inv_def)
  qed
qed

lemma hook_inv_mount: "hook_inv (mount disabled q d)"
  unfolding mount_def by (rule hook_inv_effect_body) (simp_all add: all_aborted_def)

lemma render_changed:
  assumes "q \<noteq> query st \<or> d \<noteq> debounceMs st"
  shows "render q d st =
           effect_body ((if has_cleanup st then cleanup st else st)\<lparr>query := q, debounceMs := d\<rparr>)"
  using assms by (auto simp: render_def)

lemma hook_inv_render:
  assumes "hook_inv st"
  shows "hook_inv (render q d st)"
proof (cases "q = query st \<and> d = debounceMs st")
  case True
  with assms show ?thesis by (simp add: render_def)
next
  case False
  let ?st1 = "if has_cleanup st then cleanup st else st"
  from quiet_before_effect [OF assms]
  have "all_aborted (?st1\<lparr>query := q, debounceMs := d\<rparr>)"
    and "debounce_timer (?st1\<lparr>query := q, debounceMs := d\<rparr>) = None"
    and "search_error (?st1\<lparr>query := q, debounceMs := d\<rparr>) = None"
    by (simp_all add: all_aborted_def)
  then have "hook_inv (effect_body (?st1\<lparr>query := q, debounceMs := d\<rparr>))"
    by (rule hook_inv_effect_body)
  with False show ?thesis by (auto simp: render_def)
qed

text \<open>A change of the query or of the delay leaves no request running.\<close>

lemma render_aborts:
  assumes "hook_inv st" and "q \<noteq> query st \<or> d \<noteq> debounceMs st"
  shows "all_aborted (render q d st)"
proof -
  let ?st1 = "if has_cleanup st then cleanup st else st"
  from quiet_before_effect [OF assms(1)]
  have "all_aborted (?st1\<lparr>query := q, debounceMs := d\<rparr>)"
    and "debounce_timer (?st1\<lparr>query := q, debounceMs := d\<rparr>) = None"
    and "search_error (?st1\<lparr>query := q, debounceMs := d\<rparr>) = None"
    by (simp_all add: all_aborted_def)
  then have "all_aborted (effect_body (?st1\<lparr>query := q, debounceMs := d\<rparr>))"
    by (rule hook_inv_effect_body)
  then show ?thesis by (simp only: render_changed [OF assms(2)])
qed

lemma hook_inv_debounced:
  assumes "hook_inv st"
  shows "hook_inv (debounced toLowerCase st)"
proof (cases "debounce_timer st")
  case None
  with assms show ?thesis by (simp add: debounced_def)
next
  case (Some t)
  obtain q due where t: "t = (q, due)" by (cases t)
  show ?thesis
  proof (cases "clock st < due")
    case True
    with assms Some t show ?thesis by (simp add: debounced_def)
  next
    case False
    from assms Some have hc: "has_cleanup st" and ab: "all_aborted st"
      by (auto simp: hook_inv_def)
    from ab have old: "list_all (\<lambda>(q, c, due). c \<in> set (aborted st) \<or> Some (controllers st) = Some c)
                         (in_flight st)"
      by (auto simp: all_aborted_def list_all_iff)
    from assms have keep: "list_all (\<lambda>(q, c, due). c \<in> set (aborted st) \<or> abortControllerRef st = Some c)
                         (in_flight st)"
      by (simp add: hook_inv_def)
    show ?thesis
      using False Some t hc old keep
      by (simp add: debounced_def hook_inv_def use_fallback_def Let_def)
  qed
qed

lemma list_all_remove:
  "list_all P xs \<Longrightarrow> list_all P (take i xs @ drop (Suc i) xs)"
  by (auto simp: list_all_iff dest: in_set_takeD in_set_dropD)

lemma hook_inv_settle:
  assumes "hook_inv st"
  shows "hook_inv (settle toLowerCase i out st)"
proof (cases "length (in_flight st) \<le> i")
  case True
  with assms show ?thesis by (simp add: settle_def)
next
  case False
  obtain q c due where e: "in_flight st ! i = (q, c, due)" by (cases "in_flight st ! i")
  let ?rest = "take i (in_flight st) @ drop (Suc i) (in_flight st)"
  from assms have 1: "list_all (\<lambda>(q, c, due). c \<in> set (aborted st) \<or> abortControllerRef st = Some c) ?rest"
    by (intro list_all_remove) (simp add: hook_inv_def)
  have 2: "all_aborted st \<Longrightarrow> list_all (\<lambda>(q, c, due). c \<in> set (aborted st)) ?rest"
    unfolding all_aborted_def by (rule list_all_remove)
  from assms 1 2 False e show ?thesis
    by (auto simp: settle_def hook_inv_def use_fallback_def all_aborted_def Let_def
        split: outcome.splits option.splits list.splits)
qed

lemma hook_inv_request_timeout:
  assumes "hook_inv st"
  shows "hook_inv (request_timeout i st)"
proof -
  have "hook_inv (abort_current st)"
    using assms
    by (auto simp: hook_inv_def abort_current_def all_aborted_def list_all_iff
        split: option.splits)
  with assms show ?thesis
    by (simp add: request_timeout_def Let_def split: prod.splits)
qed

lemma hook_inv_unmount:
  assumes "hook_inv st" and "has_cleanup st"
  shows "hook_inv ((cleanup st)\<lparr>has_cleanup := False\<rparr>)"
proof -
  from assms(1) have "all_aborted (abort_current (st\<lparr>debounce_timer := None\<rparr>))"
    by (intro abort_current_aborts) (simp add: hook_inv_def)
  then have a: "all_aborted ((cleanup st)\<lparr>has_cleanup := False\<rparr>)"
    by (simp add: cleanup_def all_aborted_def)
  from all_aborted_weaken [OF a] a assms(1) show ?thesis
    by (simp add: hook_inv_def cleanup_def)
qed

lemma hook_inv_step:
  assumes "hook_inv st"
  shows "hook_inv (step toLowerCase st ev)"
proof (cases ev)
  case (Render q d)
  with assms show ?thesis by (simp add: hook_inv_render)
next
  case (Elapse ms)
  with assms show ?thesis
    by (auto simp: hook_inv_def all_aborted_def split: option.splits)
next
  case Debounced
  with assms show ?thesis by (simp add: hook_inv_debounced)
next
  case (Settle i out)
  with assms show ?thesis by (simp add: hook_inv_settle)
next
  case (RequestTimeout i)
  with assms show ?thesis by (simp add: hook_inv_request_timeout)
next
  case Unmount
  with assms show ?thesis by (simp add: hook_inv_unmount)
qed

lemma hook_inv_foldl:
  "hook_inv st \<Longrightarrow> hook_inv (foldl (step toLowerCase) st events)"
  by (induction events arbitrary: st) (simp_all add: hook_inv_step)

lemma hook_inv_run: "hook_inv (run toLowerCase disabled q d events)"
  unfolding run_def by (intro hook_inv_foldl hook_inv_mount)

lemma in_flight_only_debounced:
  assumes "ev \<noteq> Debounced"
  shows "set (in_flight (step toLowerCase st ev)) \<subseteq> set (in_flight st)"
proof (cases ev)
  case (Render q d)
  then show ?thesis
    by (simp add: render_def effect_body_def cleanup_def)
next
  case (Settle i out)
  then show ?thesis
    by (auto simp: settle_def use_fallback_def Let_def
        split: prod.splits outcome.splits option.splits list.splits
        dest: in_set_takeD in_set_dropD)
next
  case (RequestTimeout i)
  then show ?thesis by (simp add: request_timeout_def Let_def split: prod.splits)
next
  case Unmount
  then show ?thesis by (simp add: cleanup_def)
qed (use assms in simp_all)


text \<open>
  C5. After any sequence of events, and with any \<^verbatim>\<open>toLowerCase\<close>: the hook reports
  no error; a request that settles with a failure, a response that is not ok, a body
  that is not a non-empty array, or after its abort, makes the hook return the
  fallback list filtered case-insensitively by the query of that lookup, or its first
  10 entries when no name matches, and so does a lookup that skips the remote call;
  a changed query of length at least 2 starts the debounce timer, due one delay
  later, and until then its callback does nothing; no event but that callback starts
  a request; and after a change of the query every request in flight has been aborted.
\<close>

theorem useUniversitySearch_fallback_debounce:
  assumes "st = run toLowerCase disabled q0 d0 events"
  shows "search_error st = None
    \<and> (i < length (in_flight st) \<and> in_flight st ! i = (q, c, due)
         \<and> (out = Failed \<or> out = NotOk \<or> out = Json None \<or> out = Json (Some [])
             \<or> c \<in> set (aborted st))
       \<longrightarrow> useUniversitySearch (step toLowerCase st (Settle i out)) =
             (if filter (\<lambda>u. string_includes (toLowerCase (name u)) (toLowerCase q))
                   FALLBACK_UNIVERSITIES \<noteq> []
              then filter (\<lambda>u. string_includes (toLowerCase (name u)) (toLowerCase q))
                     FALLBACK_UNIVERSITIES
              else take 10 FALLBACK_UNIVERSITIES,
              False, None))
    \<and> (debounce_timer st = Some (q, due) \<and> due \<le> clock st \<and> (apiDisabled st \<or> length q < 3)
       \<longrightarrow> useUniversitySearch (step toLowerCase st Debounced) =
             (if filter (\<lambda>u. string_includes (toLowerCase (name u)) (toLowerCase q))
                   FALLBACK_UNIVERSITIES \<noteq> []
              then filter (\<lambda>u. string_includes (toLowerCase (name u)) (toLowerCase q))
                     FALLBACK_UNIVERSITIES
              else take 10 FALLBACK_UNIVERSITIES,
              False, None))
    \<and> (2 \<le> length q' \<and> q' \<noteq> query st
       \<longrightarrow> debounce_timer (step toLowerCase st (Render q' (debounceMs st)))
             = Some (q', clock st + debounceMs st))
    \<and> (debounce_timer st = Some (q, due) \<and> clock st < due
       \<longrightarrow> step toLowerCase st Debounced = st)
    \<and> (ev \<noteq> Debounced
       \<longrightarrow> set (in_flight (step toLowerCase st ev)) \<subseteq> set (in_flight st))
    \<and> (q' \<noteq> query st
       \<longrightarrow> list_all (\<lambda>(q, c, due). c \<in> set (aborted (step toLowerCase st (Render q' (debounceMs st)))))
             (in_flight (step toLowerCase st (Render q' (debounceMs st)))))"
proof -
  have inv: "hook_inv st" unfolding assms by (rule hook_inv_run)
  then have err: "search_error st = None" by (simp add: hook_inv_def)
  have settle: "i < length (in_flight st) \<and> in_flight st ! i = (q, c, due)
         \<and> (out = Failed \<or> out = NotOk \<or> out = Json None \<or> out = Json (Some [])
             \<or> c \<in> set (aborted st))
       \<longrightarrow> useUniversitySearch (step toLowerCase st (Settle i out)) =
             (if filter (\<lambda>u. string_includes (toLowerCase (name u)) (toLowerCase q))
                   FALLBACK_UNIVERSITIES \<noteq> []
              then filter (\<lambda>u. string_includes (toLowerCase (name u)) (toLowerCase q))
                     FALLBACK_UNIVERSITIES
              else take 10 FALLBACK_UNIVERSITIES,
              False, None)"
    using err
    by (auto simp: settle_def use_fallback_def useUniversitySearch_def fallback_for_def Let_def)
  have skip: "debounce_timer st = Some (q, due) \<and> due \<le> clock st \<and> (apiDisabled st \<or> length q < 3)
       \<longrightarrow> useUniversitySearch (step toLowerCase st Debounced) =
             (if filter (\<lambda>u. string_includes (toLowerCase (name u)) (toLowerCase q))
                   FALLBACK_UNIVERSITIES \<noteq> []
              then filter (\<lambda>u. string_includes (toLowerCase (name u)) (toLowerCase q))
                     FALLBACK_UNIVERSITIES
              else take 10 FALLBACK_UNIVERSITIES,
              False, None)"
    by (auto simp: debounced_def use_fallback_def useUniversitySearch_def fallback_for_def Let_def)
  have start: "2 \<le> length q' \<and> q' \<noteq> query st
       \<longrightarrow> debounce_timer (step toLowerCase st (Render q' (debounceMs st)))
             = Some (q', clock st + debounceMs st)"
    by (auto simp: render_def effect_body_def cleanup_def)
  have wait: "debounce_timer st = Some (q, due) \<and> clock st < due
       \<longrightarrow> step toLowerCase st Debounced = st"
    by (simp add: debounced_def)
  have only: "ev \<noteq> Debounced
       \<longrightarrow> set (in_flight (step toLowerCase st ev)) \<subseteq> set (in_flight st)"
    using in_flight_only_debounced by blast
  have aborts: "q' \<noteq> query st
       \<longrightarrow> list_all (\<lambda>(q, c, due). c \<in> set (aborted (step toLowerCase st (Render q' (debounceMs st)))))
             (in_flight (step toLowerCase st (Render q' (debounceMs st))))"
    using render_aborts [OF inv, of q' "debounceMs st"] by (simp add: all_aborted_def)
  from err settle skip start wait only aborts show ?thesis by blast
qed

theorem useUniversitySearch_fallback_debounce_witness:
  "useUniversitySearch
     (run ascii_toLowerCase False (js ''DEL'') 500 [Elapse 500, Debounced, Settle 0 Failed])
     = ([university ''Indian Institute of Technology Delhi'' ''India'',
         university ''Delhi University'' ''India''], False, None)
   \<and> in_flight (run ascii_toLowerCase False (js ''DEL'') 500
                  [Elapse 500, Debounced, Render (js ''DELH'') 500])
       = [(js ''DEL'', 0, 3500)]
   \<and> list_all (\<lambda>(q, c, due). c \<in> set (aborted
         (run ascii_toLowerCase False (js ''DEL'') 500
            [Elapse 500, Debounced, Render (js ''DELH'') 500])))
       (in_flight (run ascii_toLowerCase False (js ''DEL'') 500
                     [Elapse 500, Debounced, Render (js ''DELH'') 500]))"
proof -
  let ?st = "run ascii_toLowerCase False (js ''DEL'') 500 [Elapse 500, Debounced]"
  have more: "run ascii_toLowerCase False (js ''DEL'') 500 ([Elapse 500, Debounced] @ [ev])
                = step ascii_toLowerCase ?st ev" for ev
    unfolding run_def by (simp only: foldl_append foldl_Cons foldl_Nil)
  have i: "0 < length (in_flight ?st)" by code_simp
  have e: "in_flight ?st ! 0 = (js ''DEL'', 0, 3500)" by code_simp
  have d: "debounceMs ?st = 500" by code_simp
  have q: "js ''DELH'' \<noteq> query ?st" by code_simp
  have f: "filter (\<lambda>u. string_includes (ascii_toLowerCase (name u)) (ascii_toLowerCase (js ''DEL'')))
             FALLBACK_UNIVERSITIES
           = [university ''Indian Institute of Technology Delhi'' ''India'',
              university ''Delhi University'' ''India'']"
    by code_simp
  have fl: "in_flight (step ascii_toLowerCase ?st (Render (js ''DELH'') 500)) = [(js ''DEL'', 0, 3500)]"
    by code_simp
  note inst = useUniversitySearch_fallback_debounce
               [OF refl, of ascii_toLowerCase False "js ''DEL''" 500 "[Elapse 500, Debounced]"
                  0 "js ''DEL''" 0 3500 Failed "js ''DELH''"]
  from inst i e
  have "useUniversitySearch (step ascii_toLowerCase ?st (Settle 0 Failed)) =
          (if filter (\<lambda>u. string_includes (ascii_toLowerCase (name u)) (ascii_toLowerCase (js ''DEL'')))
                FALLBACK_UNIVERSITIES \<noteq> []
           then filter (\<lambda>u. string_includes (ascii_toLowerCase (name u)) (ascii_toLowerCase (js ''DEL'')))
                  FALLBACK_UNIVERSITIES
           else take 10 FALLBACK_UNIVERSITIES,
           False, None)"
    by blast
  then have 1: "useUniversitySearch (step ascii_toLowerCase ?st (Settle 0 Failed)) =
          ([university ''Indian Institute of Technology Delhi'' ''India'',
            university ''Delhi University'' ''India''], False, None)"
    unfolding f by simp
  from inst q
  have "list_all (\<lambda>(q, c, due). c \<in> set (aborted (step ascii_toLowerCase ?st (Render (js ''DELH'') (debounceMs ?st)))))
          (in_flight (step ascii_toLowerCase ?st (Render (js ''DELH'') (debounceMs ?st))))"
    by blast
  then have 2: "list_all (\<lambda>(q, c, due). c \<in> set (aborted (step ascii_toLowerCase ?st (Render (js ''DELH'') 500))))
          (in_flight (step ascii_toLowerCase ?st (Render (js ''DELH'') 500)))"
    unfolding d .
  from 1 2 fl show ?thesis
    using more [of "Settle 0 Failed"] more [of "Render (js ''DELH'') 500"]
    by (simp only: append_Cons append_Nil) 
qed

end
